theory Spec2Isabelle
  imports Complex_Main "HOL-Library.AList" "HOL-Library.Multiset"
begin

section \<open>Data model of heredity.py\<close>

text \<open>
  Python floats are modelled by \<^typ>\<open>real\<close>: every statement below is about exact
  arithmetic, rounding is not modelled. Python ints are \<^typ>\<open>int\<close>. A dictionary that
  the program iterates over (\<open>people\<close>, \<open>probabilities\<close>, a histogram) is an association
  list in insertion order; the constant tables of \<open>PROBS\<close> are maps. An exception is a
  value \<open>Inl e\<close> of the result type \<open>py_error + 'a\<close>.
\<close>

datatype py_error = KeyError | TypeError | ZeroDivisionError

definition py_bind :: "py_error + 'a \<Rightarrow> ('a \<Rightarrow> py_error + 'b) \<Rightarrow> py_error + 'b" where
  "py_bind m f = (case m of Inl e \<Rightarrow> Inl e | Inr x \<Rightarrow> f x)"

text \<open>\<open>d[k]\<close> for a computed key: \<open>KeyError\<close> when the key is missing.\<close>

definition getitem :: "('k \<rightharpoonup> 'v) \<Rightarrow> 'k \<Rightarrow> py_error + 'v" where
  "getitem d k = (case d k of None \<Rightarrow> Inl KeyError | Some v \<Rightarrow> Inr v)"

text \<open>\<open>a * b\<close> where an operand may be Python's \<open>None\<close>: \<open>TypeError\<close>.\<close>

definition py_mul :: "real option \<Rightarrow> real option \<Rightarrow> py_error + real" where
  "py_mul a b = (case a of None \<Rightarrow> Inl TypeError
                 | Some x \<Rightarrow> (case b of None \<Rightarrow> Inl TypeError | Some y \<Rightarrow> Inr (x * y)))"

text \<open>One value of the dictionary \<open>load_data\<close> builds: the row of one person.\<close>

record family =
  name :: string
  mother :: "string option"
  father :: "string option"
  trait :: "bool option"

type_synonym people = "(string \<times> family) list"

text \<open>\<open>probabilities[person]\<close>: the two histograms \<open>"gene"\<close> and \<open>"trait"\<close>.\<close>

record features =
  gene_dist :: "(int \<times> real) list"
  trait_dist :: "(bool \<times> real) list"

type_synonym probabilities = "(string \<times> features) list"

section \<open>The table PROBS\<close>

definition PROBS_gene :: "int \<rightharpoonup> real" where
  "PROBS_gene = [2 \<mapsto> 0.01, 1 \<mapsto> 0.03, 0 \<mapsto> 0.96]"

definition PROBS_trait :: "int \<rightharpoonup> (bool \<rightharpoonup> real)" where
  "PROBS_trait =
     [2 \<mapsto> [True \<mapsto> 0.65, False \<mapsto> 0.35],
      1 \<mapsto> [True \<mapsto> 0.56, False \<mapsto> 0.44],
      0 \<mapsto> [True \<mapsto> 0.01, False \<mapsto> 0.99]]"

definition PROBS_mutation :: real where
  "PROBS_mutation = 0.01"

section \<open>get_unknown_parent_gene_probability, get_parent_gene_probability\<close>

text \<open>
  The keys \<open>0\<close>, \<open>1\<close>, \<open>2\<close> are written as literals in the source and are keys of
  \<open>PROBS["gene"]\<close>, so these three lookups cannot raise.
\<close>

definition get_unknown_parent_gene_probability :: "bool \<Rightarrow> real" where
  "get_unknown_parent_gene_probability child_has_gene =
     (if child_has_gene then
        the (PROBS_gene 0) * PROBS_mutation
        + the (PROBS_gene 1) * (0.5 * (1 - PROBS_mutation) + 0.5 * PROBS_mutation)
        + the (PROBS_gene 2) * (1 - PROBS_mutation)
      else
        the (PROBS_gene 0) * (1 - PROBS_mutation)
        + the (PROBS_gene 1) * (0.5 * (1 - PROBS_mutation) + 0.5 * PROBS_mutation)
        + the (PROBS_gene 2) * PROBS_mutation)"

text \<open>
  The result is \<open>None\<close> where the Python function falls off its last \<open>elif\<close> and
  returns \<open>None\<close> (a gene count other than 0, 1, 2 with a known parent).
\<close>

definition get_parent_gene_probability :: "bool \<Rightarrow> string option \<Rightarrow> int \<Rightarrow> real option" where
  "get_parent_gene_probability child_has_gene parent parent_genes =
     (if parent \<noteq> None then
        (if child_has_gene then
           (if parent_genes = 0 then Some PROBS_mutation
            else if parent_genes = 1 then
              Some (0.5 * (1 - PROBS_mutation) + 0.5 * PROBS_mutation)
            else if parent_genes = 2 then Some (1 - PROBS_mutation)
            else None)
         else
           (if parent_genes = 0 then Some (1 - PROBS_mutation)
            else if parent_genes = 1 then
              Some (0.5 * (1 - PROBS_mutation) + 0.5 * PROBS_mutation)
            else if parent_genes = 2 then Some PROBS_mutation
            else None))
      else Some (get_unknown_parent_gene_probability child_has_gene))"

section \<open>joint_probability\<close>

text \<open>\<open>2 if person in two_genes else 1 if person in one_gene else 0\<close>\<close>

definition gene_count :: "string \<Rightarrow> string set \<Rightarrow> string set \<Rightarrow> int" where
  "gene_count person one_gene two_genes =
     (if person \<in> two_genes then 2 else if person \<in> one_gene then 1 else 0)"

text \<open>
  The same expression for \<open>mother\<close> and \<open>father\<close>, which may be \<open>None\<close>: \<open>None\<close> is a
  member of no set of names.
\<close>

definition py_in :: "string option \<Rightarrow> string set \<Rightarrow> bool" where
  "py_in x s = (case x of None \<Rightarrow> False | Some n \<Rightarrow> n \<in> s)"

definition parent_gene_count :: "string option \<Rightarrow> string set \<Rightarrow> string set \<Rightarrow> int" where
  "parent_gene_count parent one_gene two_genes =
     (if py_in parent two_genes then 2 else if py_in parent one_gene then 1 else 0)"

text \<open>The body of the loop over \<open>people.items()\<close>: the factor \<open>gene_prob * trait_prob\<close>.\<close>

definition joint_probability_person ::
  "string set \<Rightarrow> string set \<Rightarrow> string set \<Rightarrow> string \<Rightarrow> family \<Rightarrow> py_error + real" where
  "joint_probability_person one_gene two_genes have_trait person family =
     (let mother = mother family;
          father = father family;
          gene = gene_count person one_gene two_genes;
          trait = (person \<in> have_trait)
      in py_bind (py_bind (getitem PROBS_trait gene) (\<lambda>d. getitem d trait)) (\<lambda>trait_prob.
         py_bind
           (if mother = None \<and> father = None then getitem PROBS_gene gene
            else
              (let mother_genes = parent_gene_count mother one_gene two_genes;
                   father_genes = parent_gene_count father one_gene two_genes
               in if gene = 0 then
                    py_mul (get_parent_gene_probability False mother mother_genes)
                           (get_parent_gene_probability False father father_genes)
                  else if gene = 1 then
                    py_bind (py_mul (get_parent_gene_probability True mother mother_genes)
                                    (get_parent_gene_probability False father father_genes))
                      (\<lambda>gene_prob_mother.
                    py_bind (py_mul (get_parent_gene_probability False mother mother_genes)
                                    (get_parent_gene_probability True father father_genes))
                      (\<lambda>gene_prob_father. Inr (gene_prob_mother + gene_prob_father)))
                  else if gene = 2 then
                    py_mul (get_parent_gene_probability True mother mother_genes)
                           (get_parent_gene_probability True father father_genes)
                  else Inr 0))
           (\<lambda>gene_prob. Inr (gene_prob * trait_prob))))"

fun joint_probability_loop ::
  "people \<Rightarrow> string set \<Rightarrow> string set \<Rightarrow> string set \<Rightarrow> real \<Rightarrow> py_error + real" where
  "joint_probability_loop [] one_gene two_genes have_trait joint_p = Inr joint_p"
| "joint_probability_loop ((person, family) # rest) one_gene two_genes have_trait joint_p =
     py_bind (joint_probability_person one_gene two_genes have_trait person family)
       (\<lambda>factor. joint_probability_loop rest one_gene two_genes have_trait (joint_p * factor))"

definition joint_probability ::
  "people \<Rightarrow> string set \<Rightarrow> string set \<Rightarrow> string set \<Rightarrow> py_error + real" where
  "joint_probability people one_gene two_genes have_trait =
     joint_probability_loop people one_gene two_genes have_trait 1"

text \<open>
  How often one run of \<open>joint_probability\<close> invokes
  \<open>get_unknown_parent_gene_probability\<close>: a count that follows the calls of the source.
  \<open>get_parent_gene_probability\<close> invokes it once when \<open>parent\<close> is \<open>None\<close> and never
  otherwise; the loop body of \<open>joint_probability\<close> calls \<open>get_parent_gene_probability\<close>
  for mother and father once each when \<open>gene\<close> is 0 or 2, twice each when it is 1.
\<close>

definition unknown_parent_calls :: "string option \<Rightarrow> nat" where
  "unknown_parent_calls parent = (if parent \<noteq> None then 0 else 1)"

definition joint_probability_person_calls ::
  "string set \<Rightarrow> string set \<Rightarrow> string \<Rightarrow> family \<Rightarrow> nat" where
  "joint_probability_person_calls one_gene two_genes person family =
     (let mother = mother family;
          father = father family;
          gene = gene_count person one_gene two_genes
      in if mother = None \<and> father = None then 0
         else if gene = 0 then unknown_parent_calls mother + unknown_parent_calls father
         else if gene = 1 then
           (unknown_parent_calls mother + unknown_parent_calls father)
           + (unknown_parent_calls mother + unknown_parent_calls father)
         else if gene = 2 then unknown_parent_calls mother + unknown_parent_calls father
         else 0)"

fun joint_probability_calls :: "people \<Rightarrow> string set \<Rightarrow> string set \<Rightarrow> nat" where
  "joint_probability_calls [] one_gene two_genes = 0"
| "joint_probability_calls ((person, family) # rest) one_gene two_genes =
     joint_probability_person_calls one_gene two_genes person family
     + joint_probability_calls rest one_gene two_genes"

section \<open>powerset\<close>

text \<open>
  \<open>itertools.combinations(s, r)\<close>: the sublists of length \<open>r\<close>, in the order of the
  positions chosen. \<open>powerset\<close> takes the list \<open>list(s)\<close>; the order in which Python
  lists a set is not specified, and no statement below depends on it.
\<close>

fun combinations :: "'a list \<Rightarrow> nat \<Rightarrow> 'a list list" where
  "combinations xs 0 = [[]]"
| "combinations [] (Suc r) = []"
| "combinations (x # xs) (Suc r) =
     map ((#) x) (combinations xs r) @ combinations xs (Suc r)"

definition powerset :: "'a list \<Rightarrow> 'a set list" where
  "powerset s = map set (concat (map (combinations s) [0..<length s + 1]))"

section \<open>update, normalize\<close>

text \<open>\<open>d[k] += p\<close> on a histogram: \<open>KeyError\<close> when the bucket is missing.\<close>

definition add_at :: "('k \<times> real) list \<Rightarrow> 'k \<Rightarrow> real \<Rightarrow> py_error + ('k \<times> real) list" where
  "add_at d k p =
     (case map_of d k of None \<Rightarrow> Inl KeyError | Some v \<Rightarrow> Inr (AList.update k (v + p) d))"

fun update ::
  "probabilities \<Rightarrow> string set \<Rightarrow> string set \<Rightarrow> string set \<Rightarrow> real
     \<Rightarrow> py_error + probabilities" where
  "update [] one_gene two_genes have_trait p = Inr []"
| "update ((person, features) # rest) one_gene two_genes have_trait p =
     (let gene = gene_count person one_gene two_genes;
          trait = (person \<in> have_trait)
      in py_bind (add_at (gene_dist features) gene p) (\<lambda>gene_dist'.
         py_bind (add_at (trait_dist features) trait p) (\<lambda>trait_dist'.
         py_bind (update rest one_gene two_genes have_trait p) (\<lambda>rest'.
         Inr ((person, \<lparr>gene_dist = gene_dist', trait_dist = trait_dist'\<rparr>) # rest')))))"

text \<open>
  The two inner loops of \<open>normalize\<close> on one histogram: \<open>s\<close> is summed once, then every
  bucket is replaced by \<open>value / s\<close>; the first division raises \<open>ZeroDivisionError\<close>
  when \<open>s\<close> is zero. (In HOL \<open>x / 0 = 0\<close>, so the test is written out.)
\<close>

definition normalize_distribution :: "('k \<times> real) list \<Rightarrow> py_error + ('k \<times> real) list" where
  "normalize_distribution distribution =
     (let s = sum_list (map snd distribution)
      in if distribution \<noteq> [] \<and> s = 0 then Inl ZeroDivisionError
         else Inr (map (\<lambda>(key, value). (key, value / s)) distribution))"

text \<open>
  \<open>normalize\<close> of the source (the name with a suffix: HOL has a constant \<open>normalize\<close>).
  The features of a person are visited in the order \<open>"gene"\<close>, \<open>"trait"\<close>.
\<close>

fun normalize_probabilities :: "probabilities \<Rightarrow> py_error + probabilities" where
  "normalize_probabilities [] = Inr []"
| "normalize_probabilities ((person, features) # rest) =
     py_bind (normalize_distribution (gene_dist features)) (\<lambda>gene_dist'.
     py_bind (normalize_distribution (trait_dist features)) (\<lambda>trait_dist'.
     py_bind (normalize_probabilities rest) (\<lambda>rest'.
     Inr ((person, \<lparr>gene_dist = gene_dist', trait_dist = trait_dist'\<rparr>) # rest'))))"

section \<open>load_data\<close>

text \<open>
  One row as \<open>csv.DictReader\<close> hands it over: four strings. Reading and splitting the
  file is outside the model.
\<close>

record row =
  row_name :: string
  row_mother :: string
  row_father :: string
  row_trait :: string

definition row_family :: "row \<Rightarrow> family" where
  "row_family r =
     \<lparr>name = row_name r,
      mother = (if row_mother r = [] then None else Some (row_mother r)),
      father = (if row_father r = [] then None else Some (row_father r)),
      trait = (if row_trait r = ''1'' then Some True
               else if row_trait r = ''0'' then Some False else None)\<rparr>"

fun load_data_loop :: "row list \<Rightarrow> people \<Rightarrow> people" where
  "load_data_loop [] data = data"
| "load_data_loop (r # rows) data =
     load_data_loop rows (AList.update (row_name r) (row_family r) data)"

definition load_data :: "row list \<Rightarrow> people" where
  "load_data rows = load_data_loop rows []"

section \<open>main\<close>

text \<open>
  The state of the three nested loops: the dictionary \<open>probabilities\<close>, and a log of
  the arguments of every call of \<open>joint_probability\<close> so far (the log is not part of
  the program; it records what the program evaluates).
\<close>

record run =
  run_probabilities :: probabilities
  run_calls :: "(string set \<times> string set \<times> string set) list"

definition init_probabilities :: "people \<Rightarrow> probabilities" where
  "init_probabilities people =
     map (\<lambda>(person, family).
       (person, \<lparr>gene_dist = [(2, 0), (1, 0), (0, 0)],
                 trait_dist = [(True, 0), (False, 0)]\<rparr>)) people"

text \<open>\<open>any(... for person in names)\<close>, which stops at the first true element.\<close>

fun fails_evidence :: "people \<Rightarrow> string set \<Rightarrow> string list \<Rightarrow> py_error + bool" where
  "fails_evidence people have_trait [] = Inr False"
| "fails_evidence people have_trait (person # rest) =
     py_bind (getitem (map_of people) person) (\<lambda>family.
       if trait family \<noteq> None \<and> trait family \<noteq> Some (person \<in> have_trait) then Inr True
       else fails_evidence people have_trait rest)"

fun loop_two_genes ::
  "people \<Rightarrow> string set \<Rightarrow> string set \<Rightarrow> string set list \<Rightarrow> run \<Rightarrow> py_error + run" where
  "loop_two_genes people have_trait one_gene [] st = Inr st"
| "loop_two_genes people have_trait one_gene (two_genes # rest) st =
     py_bind (joint_probability people one_gene two_genes have_trait) (\<lambda>p.
     py_bind (update (run_probabilities st) one_gene two_genes have_trait p) (\<lambda>probabilities'.
     loop_two_genes people have_trait one_gene rest
       \<lparr>run_probabilities = probabilities',
        run_calls = run_calls st @ [(one_gene, two_genes, have_trait)]\<rparr>))"

text \<open>\<open>names - one_gene\<close> keeps the names outside \<open>one_gene\<close>.\<close>

fun loop_one_gene ::
  "people \<Rightarrow> string list \<Rightarrow> string set \<Rightarrow> string set list \<Rightarrow> run \<Rightarrow> py_error + run" where
  "loop_one_gene people names have_trait [] st = Inr st"
| "loop_one_gene people names have_trait (one_gene # rest) st =
     py_bind (loop_two_genes people have_trait one_gene
                (powerset (filter (\<lambda>n. n \<notin> one_gene) names)) st)
       (\<lambda>st'. loop_one_gene people names have_trait rest st')"

fun loop_have_trait ::
  "people \<Rightarrow> string list \<Rightarrow> string set list \<Rightarrow> run \<Rightarrow> py_error + run" where
  "loop_have_trait people names [] st = Inr st"
| "loop_have_trait people names (have_trait # rest) st =
     py_bind (fails_evidence people have_trait names) (\<lambda>fails.
       if fails then loop_have_trait people names rest st
       else py_bind (loop_one_gene people names have_trait (powerset names) st)
              (\<lambda>st'. loop_have_trait people names rest st'))"

text \<open>
  \<open>main\<close> from the dictionary \<open>people\<close> on: the loops, then \<open>normalize\<close>. \<open>names\<close> is
  \<open>set(people)\<close>, the keys of the dictionary. Printing is left out.
\<close>

definition main_loop :: "people \<Rightarrow> py_error + run" where
  "main_loop people =
     (let names = map fst people
      in loop_have_trait people names (powerset names)
           \<lparr>run_probabilities = init_probabilities people, run_calls = []\<rparr>)"

definition main_people :: "people \<Rightarrow> py_error + probabilities" where
  "main_people people =
     py_bind (main_loop people) (\<lambda>st. normalize_probabilities (run_probabilities st))"

definition main :: "row list \<Rightarrow> py_error + probabilities" where
  "main rows = main_people (load_data rows)"

section \<open>The Conditional Probability Model as the specification words it\<close>

text \<open>
  Section 4.2 of the specification, written from its sentences and compared with the
  code below. \<open>genePrior\<close> and \<open>traitLikelihood\<close> read the table at a gene count in
  \<open>{0, 1, 2}\<close>.
\<close>

definition genePrior :: "int \<Rightarrow> real" where
  "genePrior g = the (PROBS_gene g)"

definition traitLikelihood :: "int \<Rightarrow> bool \<Rightarrow> real" where
  "traitLikelihood g t = the (the (PROBS_trait g) t)"

definition transmissionProbability :: "int \<Rightarrow> real" where
  "transmissionProbability parentGeneCount =
     (if parentGeneCount = 0 then PROBS_mutation
      else if parentGeneCount = 2 then 1 - PROBS_mutation
      else 0.5 * (1 - PROBS_mutation) + 0.5 * PROBS_mutation)"

definition childGeneDistribution :: "int \<Rightarrow> int \<Rightarrow> int \<Rightarrow> real" where
  "childGeneDistribution motherGeneCount fatherGeneCount c =
     (let t_m = transmissionProbability motherGeneCount;
          t_f = transmissionProbability fatherGeneCount
      in if c = 0 then (1 - t_m) * (1 - t_f)
         else if c = 1 then t_m * (1 - t_f) + (1 - t_m) * t_f
         else t_m * t_f)"

text \<open>
  Section 4.4: the factor of one individual, and the product over every individual.
\<close>

definition spec_person_factor ::
  "string set \<Rightarrow> string set \<Rightarrow> string set \<Rightarrow> string \<Rightarrow> family \<Rightarrow> real" where
  "spec_person_factor one_gene two_genes have_trait person family =
     (let g = gene_count person one_gene two_genes
      in (if mother family = None \<and> father family = None then genePrior g
          else childGeneDistribution
                 (parent_gene_count (mother family) one_gene two_genes)
                 (parent_gene_count (father family) one_gene two_genes) g)
         * traitLikelihood g (person \<in> have_trait))"

definition spec_joint_probability ::
  "people \<Rightarrow> string set \<Rightarrow> string set \<Rightarrow> string set \<Rightarrow> real" where
  "spec_joint_probability people one_gene two_genes have_trait =
     prod_list (map (\<lambda>(person, family).
        spec_person_factor one_gene two_genes have_trait person family) people)"

text \<open>
  The validity condition of the Family Graph (section 3): both parents recorded, or
  neither.
\<close>

definition both_or_neither :: "people \<Rightarrow> bool" where
  "both_or_neither people =
     list_all (\<lambda>(person, family). (mother family = None) = (father family = None)) people"

text \<open>
  Section 4.5: a histogram with every bucket divided by the sum of the histogram, and
  what it is for two histograms to have the same buckets in the same proportions.
\<close>

definition scaled :: "('k \<times> real) list \<Rightarrow> ('k \<times> real) list" where
  "scaled d = map (\<lambda>(key, value). (key, value / sum_list (map snd d))) d"

definition same_proportions :: "('k \<times> real) list \<Rightarrow> ('k \<times> real) list \<Rightarrow> bool" where
  "same_proportions d d' = (\<exists>c. c \<noteq> 0 \<and> d' = map (\<lambda>(key, value). (key, c * value)) d)"

section \<open>Auxiliary notions for the statements about main\<close>

text \<open>
  The value \<open>joint_probability\<close> returns (it never raises, see \<open>joint_probability_total\<close>).
\<close>

definition joint_value :: "people \<Rightarrow> string set \<Rightarrow> string set \<Rightarrow> string set \<Rightarrow> real" where
  "joint_value people one_gene two_genes have_trait =
     (case joint_probability people one_gene two_genes have_trait of
        Inl e \<Rightarrow> 0 | Inr p \<Rightarrow> p)"

text \<open>A trait subset agrees with every recorded trait value.\<close>

definition respects_evidence :: "people \<Rightarrow> string set \<Rightarrow> bool" where
  "respects_evidence people have_trait =
     list_all (\<lambda>(person, family).
        (trait family = Some True \<longrightarrow> person \<in> have_trait)
        \<and> (trait family = Some False \<longrightarrow> person \<notin> have_trait)) people"

text \<open>
  The arguments \<open>(one_gene, two_genes, have_trait)\<close> of the calls of \<open>joint_probability\<close>
  that the three loops of \<open>main\<close> make, in order, as a list comprehension.
\<close>

definition gene_assignments :: "string list \<Rightarrow> (string set \<times> string set) list" where
  "gene_assignments names =
     concat (map (\<lambda>one_gene.
       map (\<lambda>two_genes. (one_gene, two_genes))
         (powerset (filter (\<lambda>n. n \<notin> one_gene) names))) (powerset names))"

definition assignments :: "people \<Rightarrow> (string set \<times> string set \<times> string set) list" where
  "assignments people =
     concat (map (\<lambda>have_trait.
       if respects_evidence people have_trait
       then map (\<lambda>(one_gene, two_genes). (one_gene, two_genes, have_trait))
              (gene_assignments (map fst people))
       else []) (powerset (map fst people)))"

text \<open>
  The histograms after \<open>update\<close> has run for a list of calls: each bucket holds the sum
  of the joint probabilities of the calls that assign its value to the person.
\<close>

definition gene_mass ::
  "people \<Rightarrow> (string set \<times> string set \<times> string set) list \<Rightarrow> string \<Rightarrow> int \<Rightarrow> real" where
  "gene_mass people calls person g =
     sum_list (map (\<lambda>(one_gene, two_genes, have_trait).
       if gene_count person one_gene two_genes = g
       then joint_value people one_gene two_genes have_trait else 0) calls)"

definition trait_mass ::
  "people \<Rightarrow> (string set \<times> string set \<times> string set) list \<Rightarrow> string \<Rightarrow> bool \<Rightarrow> real" where
  "trait_mass people calls person t =
     sum_list (map (\<lambda>(one_gene, two_genes, have_trait).
       if (person \<in> have_trait) = t
       then joint_value people one_gene two_genes have_trait else 0) calls)"

definition accumulated_features ::
  "people \<Rightarrow> (string set \<times> string set \<times> string set) list \<Rightarrow> string \<Rightarrow> features" where
  "accumulated_features people calls person =
     \<lparr>gene_dist = [(2, gene_mass people calls person 2), (1, gene_mass people calls person 1),
                  (0, gene_mass people calls person 0)],
      trait_dist = [(True, trait_mass people calls person True),
                   (False, trait_mass people calls person False)]\<rparr>"

definition run_after :: "people \<Rightarrow> (string set \<times> string set \<times> string set) list \<Rightarrow> run" where
  "run_after people calls =
     \<lparr>run_probabilities =
        map (\<lambda>(person, family). (person, accumulated_features people calls person)) people,
      run_calls = calls\<rparr>"

text \<open>
  A dataset of founders without evidence, and the histograms the prior gives: the gene
  prior, and the trait probabilities \<open>0.96 * 0.01 + 0.03 * 0.56 + 0.01 * 0.65\<close> and
  its complement.
\<close>

definition founders_only :: "people \<Rightarrow> bool" where
  "founders_only people =
     list_all (\<lambda>(person, family).
        mother family = None \<and> father family = None \<and> trait family = None) people"

definition prior_features :: features where
  "prior_features =
     \<lparr>gene_dist = [(2, 0.01), (1, 0.03), (0, 0.96)],
      trait_dist = [(True, 0.0329), (False, 0.9671)]\<rparr>"

text \<open>
  The sum of a function over the assignments of the names \<open>xs\<close> when no evidence is
  recorded, with each subset list written by \<open>subseqs\<close>.
\<close>

definition triple_sum ::
  "string list \<Rightarrow> (string set \<Rightarrow> string set \<Rightarrow> string set \<Rightarrow> real) \<Rightarrow> real" where
  "triple_sum xs F =
     (\<Sum>ht\<leftarrow>map set (subseqs xs). \<Sum>og\<leftarrow>map set (subseqs xs).
        \<Sum>tg\<leftarrow>map set (subseqs (filter (\<lambda>n. n \<notin> og) xs)). F og tg ht)"

section \<open>Example datasets\<close>

text \<open>
  A child with both parents recorded (the family of the course's example), and a
  dataset whose only row records a father and no mother.
\<close>

definition harry_family :: people where
  "harry_family =
     [(''Harry'', \<lparr>name = ''Harry'', mother = Some ''Lily'', father = Some ''James'', trait = None\<rparr>),
      (''James'', \<lparr>name = ''James'', mother = None, father = None, trait = Some True\<rparr>),
      (''Lily'', \<lparr>name = ''Lily'', mother = None, father = None, trait = Some False\<rparr>)]"

definition one_parent_family :: people where
  "one_parent_family =
     [(''Harry'', \<lparr>name = ''Harry'', mother = None, father = Some ''James'', trait = None\<rparr>)]"

text \<open>Histograms for \<open>normalize\<close>, and a row that breaks every rule of the file format.\<close>

definition counted_probabilities :: probabilities where
  "counted_probabilities =
     [(''Harry'', \<lparr>gene_dist = [(2, 1), (1, 1), (0, 2)], trait_dist = [(True, 3), (False, 1)]\<rparr>)]"

definition zero_probabilities :: probabilities where
  "zero_probabilities =
     [(''Harry'', \<lparr>gene_dist = [(2, 0), (1, 0), (0, 0)], trait_dist = [(True, 0), (False, 0)]\<rparr>)]"

definition zero_trait_probabilities :: probabilities where
  "zero_trait_probabilities =
     [(''Lily'', \<lparr>gene_dist = [(2, 1), (1, 1), (0, 2)], trait_dist = [(True, 3), (False, 1)]\<rparr>),
      (''Harry'', \<lparr>gene_dist = [(2, 0.5), (1, 0.5), (0, 0)], trait_dist = [(True, 0), (False, 0)]\<rparr>)]"

definition malformed_row :: row where
  "malformed_row =
     \<lparr>row_name = ''Harry'', row_mother = '''', row_father = ''James'', row_trait = ''x''\<rparr>"

text \<open>Two unrelated founders without evidence.\<close>

definition two_founders :: people where
  "two_founders =
     [(''James'', \<lparr>name = ''James'', mother = None, father = None, trait = None\<rparr>),
      (''Lily'', \<lparr>name = ''Lily'', mother = None, father = None, trait = None\<rparr>)]"

section \<open>Basic facts\<close>

lemma py_bind_simps [simp]:
  "py_bind (Inl e) f = Inl e" "py_bind (Inr x) f = f x"
  by (simp_all add: py_bind_def)

lemma PROBS_gene_simps:
  "PROBS_gene 0 = Some 0.96" "PROBS_gene 1 = Some 0.03" "PROBS_gene 2 = Some 0.01"
  by (simp_all add: PROBS_gene_def)

lemma genePrior_simps:
  "genePrior 0 = 0.96" "genePrior 1 = 0.03" "genePrior 2 = 0.01"
  by (simp_all add: genePrior_def PROBS_gene_simps)

lemma traitLikelihood_simps:
  "traitLikelihood 0 True = 0.01" "traitLikelihood 0 False = 0.99"
  "traitLikelihood 1 True = 0.56" "traitLikelihood 1 False = 0.44"
  "traitLikelihood 2 True = 0.65" "traitLikelihood 2 False = 0.35"
  by (simp_all add: traitLikelihood_def PROBS_trait_def)

lemma gene_count_cases:
  "gene_count p og tg = 0 \<or> gene_count p og tg = 1 \<or> gene_count p og tg = 2"
  by (simp add: gene_count_def)

lemma parent_gene_count_cases:
  "parent_gene_count p og tg = 0 \<or> parent_gene_count p og tg = 1
     \<or> parent_gene_count p og tg = 2"
  by (simp add: parent_gene_count_def)

lemma getitem_trait:
  "g = 0 \<or> g = 1 \<or> g = 2 \<Longrightarrow>
     py_bind (getitem PROBS_trait g) (\<lambda>d. getitem d t) = Inr (traitLikelihood g t)"
  by (cases t) (auto simp: getitem_def PROBS_trait_def traitLikelihood_def)

lemma getitem_gene:
  "g = 0 \<or> g = 1 \<or> g = 2 \<Longrightarrow> getitem PROBS_gene g = Inr (genePrior g)"
  by (auto simp: getitem_def PROBS_gene_def genePrior_def)

lemma get_parent_known:
  "get_parent_gene_probability True (Some p) g =
     (if g = 0 then Some PROBS_mutation
      else if g = 1 then Some (0.5 * (1 - PROBS_mutation) + 0.5 * PROBS_mutation)
      else if g = 2 then Some (1 - PROBS_mutation) else None)"
  "get_parent_gene_probability False (Some p) g =
     (if g = 0 then Some (1 - PROBS_mutation)
      else if g = 1 then Some (0.5 * (1 - PROBS_mutation) + 0.5 * PROBS_mutation)
      else if g = 2 then Some PROBS_mutation else None)"
  by (simp_all add: get_parent_gene_probability_def)

section \<open>Transmission probabilities\<close>

text \<open>
  Claim C2. For a known parent, \<open>get_parent_gene_probability\<close> returns the mutation
  rate for "transmits" from 0 copies, its complement from 2 copies, and the two-path
  sum \<open>0.5 * (1 - mutation) + 0.5 * mutation\<close> from 1 copy; for "does not transmit"
  the complement, the mutation rate and the same two-path sum; the mutation rate is
  0.01. (The definition above keeps the two-path formula of the source.)
\<close>

theorem get_parent_gene_probability_values:
  "get_parent_gene_probability True (Some parent) 0 = Some PROBS_mutation
   \<and> get_parent_gene_probability True (Some parent) 2 = Some (1 - PROBS_mutation)
   \<and> get_parent_gene_probability True (Some parent) 1
       = Some (0.5 * (1 - PROBS_mutation) + 0.5 * PROBS_mutation)
   \<and> get_parent_gene_probability False (Some parent) 0 = Some (1 - PROBS_mutation)
   \<and> get_parent_gene_probability False (Some parent) 2 = Some PROBS_mutation
   \<and> get_parent_gene_probability False (Some parent) 1
       = Some (0.5 * (1 - PROBS_mutation) + 0.5 * PROBS_mutation)
   \<and> PROBS_mutation = 0.01"
  by (simp add: get_parent_gene_probability_def PROBS_mutation_def)

text \<open>
  Claim C10. "Transmits" and "does not transmit" are complementary: for a known parent
  with 0, 1 or 2 copies both calls return a number and the two add up to 1, and the two
  values of \<open>get_unknown_parent_gene_probability\<close> add up to 1.
\<close>

theorem transmission_complementary:
  assumes "g = 0 \<or> g = 1 \<or> g = 2"
  shows "(\<exists>a b. get_parent_gene_probability True (Some parent) g = Some a
            \<and> get_parent_gene_probability False (Some parent) g = Some b
            \<and> a + b = 1)
         \<and> get_unknown_parent_gene_probability True
             + get_unknown_parent_gene_probability False = 1"
proof
  show "\<exists>a b. get_parent_gene_probability True (Some parent) g = Some a
            \<and> get_parent_gene_probability False (Some parent) g = Some b
            \<and> a + b = 1"
    using assms by (auto simp: get_parent_known)
  show "get_unknown_parent_gene_probability True
             + get_unknown_parent_gene_probability False = 1"
    by (simp add: get_unknown_parent_gene_probability_def PROBS_gene_simps PROBS_mutation_def)
qed

theorem transmission_complementary_witness:
  "(\<exists>a b. get_parent_gene_probability True (Some ''James'') 1 = Some a
            \<and> get_parent_gene_probability False (Some ''James'') 1 = Some b
            \<and> a + b = 1)
         \<and> get_unknown_parent_gene_probability True
             + get_unknown_parent_gene_probability False = 1"
  using transmission_complementary [of 1 "''James''"] by simp

lemma joint_probability_person_spec:
  assumes "(mother fam = None) = (father fam = None)"
  shows "joint_probability_person og tg ht person fam
           = Inr (spec_person_factor og tg ht person fam)"
proof (cases "mother fam")
  case None
  then have "father fam = None" using assms by simp
  with None show ?thesis
    using gene_count_cases [of person og tg]
    by (simp add: joint_probability_person_def spec_person_factor_def Let_def
          getitem_trait getitem_gene)
next
  case (Some m)
  then obtain f where f: "father fam = Some f" using assms by (cases "father fam") auto
  show ?thesis
    using gene_count_cases [of person og tg] parent_gene_count_cases [of "Some m" og tg]
      parent_gene_count_cases [of "Some f" og tg]
    by (auto simp: joint_probability_person_def spec_person_factor_def Let_def Some f
          getitem_trait get_parent_known py_mul_def childGeneDistribution_def
          transmissionProbability_def PROBS_mutation_def)
qed

lemma joint_probability_loop_spec:
  "both_or_neither people \<Longrightarrow>
     joint_probability_loop people og tg ht acc
       = Inr (acc * spec_joint_probability people og tg ht)"
proof (induction people arbitrary: acc)
  case Nil
  then show ?case by (simp add: spec_joint_probability_def)
next
  case (Cons a people)
  obtain person fam where a: "a = (person, fam)" by (cases a)
  from Cons.prems have pf: "(mother fam = None) = (father fam = None)"
    and rest: "both_or_neither people"
    by (simp_all add: both_or_neither_def a)
  show ?case
    using Cons.IH [OF rest] joint_probability_person_spec [OF pf]
    by (simp add: a spec_joint_probability_def mult.assoc)
qed

section \<open>The joint probability of one assignment\<close>

text \<open>
  Claim C1 as stated quantifies over every family mapping. It fails on a mapping with
  exactly one recorded parent: there the source takes the absent parent's factor from
  \<open>get_unknown_parent_gene_probability\<close>, not from a gene count of 0.
\<close>

theorem joint_probability_one_parent_counterexample:
  "joint_probability one_parent_family {} {} {} = Inr 0.94628655
   \<and> spec_joint_probability one_parent_family {} {} {} = 0.970299"
  by (simp add: one_parent_family_def joint_probability_def joint_probability_person_def
        spec_joint_probability_def spec_person_factor_def gene_count_def
        parent_gene_count_def py_in_def getitem_trait getitem_gene traitLikelihood_simps
        get_parent_gene_probability_def get_unknown_parent_gene_probability_def
        PROBS_gene_simps PROBS_mutation_def py_mul_def childGeneDistribution_def
        transmissionProbability_def)

text \<open>
  Claim C1, amended. For every family mapping in which each individual has both parents
  recorded or neither, and every triple of sets, \<open>joint_probability\<close> returns the product
  over the individuals of the gene-count term (the prior for an individual without
  parents, else the child gene distribution at the parents' gene counts read from the
  same sets) times the trait term.
\<close>

theorem joint_probability_is_spec_product:
  assumes "both_or_neither people"
  shows "joint_probability people one_gene two_genes have_trait
           = Inr (spec_joint_probability people one_gene two_genes have_trait)"
  using joint_probability_loop_spec [OF assms, of one_gene two_genes have_trait 1]
  by (simp add: joint_probability_def)

theorem joint_probability_is_spec_product_witness:
  "both_or_neither harry_family
   \<and> joint_probability harry_family {''Harry''} {''James''} {''James''}
       = Inr 0.0026643247488"
proof -
  have v: "both_or_neither harry_family"
    by (simp add: both_or_neither_def harry_family_def)
  have "spec_joint_probability harry_family {''Harry''} {''James''} {''James''}
          = 0.0026643247488"
    by (simp add: harry_family_def spec_joint_probability_def spec_person_factor_def
          gene_count_def parent_gene_count_def py_in_def genePrior_simps
          traitLikelihood_simps childGeneDistribution_def transmissionProbability_def
          PROBS_mutation_def)
  with v joint_probability_is_spec_product [OF v, of "{''Harry''}" "{''James''}" "{''James''}"]
  show ?thesis by simp
qed

section \<open>The unknown-parent path\<close>

lemma unknown_parent_calls_person:
  "(mother fam = None) = (father fam = None) \<Longrightarrow>
     joint_probability_person_calls og tg person fam = 0"
  by (cases "mother fam"; cases "father fam")
     (simp_all add: joint_probability_person_calls_def unknown_parent_calls_def Let_def)

text \<open>
  Claim C8. In a dataset where every individual has both parents recorded or neither,
  a run of \<open>joint_probability\<close> never invokes \<open>get_unknown_parent_gene_probability\<close>:
  \<open>get_parent_gene_probability\<close> is only called with a parent that is not \<open>None\<close>.
\<close>

theorem unknown_parent_path_dead:
  assumes "both_or_neither people"
  shows "joint_probability_calls people one_gene two_genes = 0"
  using assms
  by (induction people) (auto simp: both_or_neither_def unknown_parent_calls_person)

theorem unknown_parent_path_dead_witness:
  "both_or_neither harry_family
   \<and> joint_probability_calls harry_family {''Harry''} {''James''} = 0"
proof -
  have v: "both_or_neither harry_family"
    by (simp add: both_or_neither_def harry_family_def)
  from v unknown_parent_path_dead [OF v] show ?thesis by simp
qed

text \<open>With a single recorded parent the path is taken.\<close>

lemma unknown_parent_path_reached:
  "joint_probability_calls one_parent_family {} {} = 1
   \<and> joint_probability_calls one_parent_family {''Harry''} {} = 2"
  by (simp add: one_parent_family_def joint_probability_person_calls_def
        unknown_parent_calls_def gene_count_def)

section \<open>normalize\<close>

lemma same_proportions_scaled:
  assumes "sum_list (map snd d) \<noteq> 0"
  shows "same_proportions d (scaled d)"
proof -
  have "scaled d = map (\<lambda>(key, value). (key, (1 / sum_list (map snd d)) * value)) d"
    by (simp add: scaled_def)
  moreover from assms have "1 / sum_list (map snd d) \<noteq> 0" by simp
  ultimately show ?thesis unfolding same_proportions_def by blast
qed

lemma sum_list_map_divide:
  "sum_list (map (\<lambda>v. v / c) xs) = sum_list xs / (c::real)"
  by (induction xs) (simp_all add: add_divide_distrib)

lemma sum_list_scaled:
  assumes "sum_list (map snd d) \<noteq> 0"
  shows "sum_list (map snd (scaled d)) = 1"
proof -
  have "map snd (scaled d) = map (\<lambda>v. v / sum_list (map snd d)) (map snd d)"
    by (simp add: scaled_def case_prod_unfold o_def)
  then have "sum_list (map snd (scaled d)) = sum_list (map snd d) / sum_list (map snd d)"
    by (simp only: sum_list_map_divide)
  with assms show ?thesis by simp
qed

lemma normalize_distribution_ok:
  "sum_list (map snd d) \<noteq> 0 \<Longrightarrow> normalize_distribution d = Inr (scaled d)"
  by (simp add: normalize_distribution_def scaled_def)

lemma normalize_distribution_zero:
  "d \<noteq> [] \<Longrightarrow> sum_list (map snd d) = 0 \<Longrightarrow> normalize_distribution d = Inl ZeroDivisionError"
  by (simp add: normalize_distribution_def)

lemma normalize_distribution_error:
  "normalize_distribution d = Inl e \<Longrightarrow> e = ZeroDivisionError"
  by (simp add: normalize_distribution_def Let_def split: if_splits)

text \<open>
  Claim C5. When no histogram sums to zero, \<open>normalize\<close> returns the table in which
  every bucket of every gene and trait histogram is divided by the sum of its own
  histogram; each new histogram sums to 1 and keeps its buckets in the same proportions.
\<close>

theorem normalize_divides_by_sum:
  assumes "\<forall>(person, f) \<in> set probs.
             sum_list (map snd (gene_dist f)) \<noteq> 0 \<and> sum_list (map snd (trait_dist f)) \<noteq> 0"
  shows "normalize_probabilities probs
           = Inr (map (\<lambda>(person, f). (person,
                    \<lparr>gene_dist = scaled (gene_dist f), trait_dist = scaled (trait_dist f)\<rparr>)) probs)
         \<and> (\<forall>(person, f) \<in> set probs.
               sum_list (map snd (scaled (gene_dist f))) = 1
               \<and> sum_list (map snd (scaled (trait_dist f))) = 1
               \<and> same_proportions (gene_dist f) (scaled (gene_dist f))
               \<and> same_proportions (trait_dist f) (scaled (trait_dist f)))"
proof
  show "normalize_probabilities probs
           = Inr (map (\<lambda>(person, f). (person,
                    \<lparr>gene_dist = scaled (gene_dist f), trait_dist = scaled (trait_dist f)\<rparr>)) probs)"
    using assms
    by (induction probs) (auto simp: normalize_distribution_ok)
  show "\<forall>(person, f) \<in> set probs.
               sum_list (map snd (scaled (gene_dist f))) = 1
               \<and> sum_list (map snd (scaled (trait_dist f))) = 1
               \<and> same_proportions (gene_dist f) (scaled (gene_dist f))
               \<and> same_proportions (trait_dist f) (scaled (trait_dist f))"
    using assms by (auto simp: sum_list_scaled same_proportions_scaled)
qed

theorem normalize_divides_by_sum_witness:
  "normalize_probabilities counted_probabilities
     = Inr [(''Harry'', \<lparr>gene_dist = [(2, 0.25), (1, 0.25), (0, 0.5)],
                          trait_dist = [(True, 0.75), (False, 0.25)]\<rparr>)]
   \<and> sum_list (map snd [(2::int, 0.25::real), (1, 0.25), (0, 0.5)]) = 1
   \<and> sum_list (map snd [(True, 0.75::real), (False, 0.25)]) = 1"
  using normalize_divides_by_sum [of counted_probabilities]
  by (simp add: counted_probabilities_def scaled_def)

text \<open>
  Claim C6 as stated names a NormalizationError that identifies the individual. The
  source has no such error: a histogram of zeros makes the division raise Python's
  \<open>ZeroDivisionError\<close>, which carries no individual.
\<close>

theorem normalize_zero_counterexample:
  "normalize_probabilities zero_probabilities = Inl ZeroDivisionError"
  by (simp add: zero_probabilities_def normalize_distribution_def)

lemma normalize_probabilities_error:
  "normalize_probabilities probs = Inl e \<Longrightarrow> e = ZeroDivisionError"
proof (induction probs)
  case Nil
  then show ?case by simp
next
  case (Cons a probs)
  obtain person f where a: "a = (person, f)" by (cases a)
  show ?case
  proof (cases "normalize_distribution (gene_dist f)")
    case (Inl e1)
    with Cons.prems show ?thesis by (auto simp: a dest: normalize_distribution_error)
  next
    case g: (Inr g')
    show ?thesis
    proof (cases "normalize_distribution (trait_dist f)")
      case (Inl e2)
      with Cons.prems g show ?thesis by (auto simp: a dest: normalize_distribution_error)
    next
      case t: (Inr t')
      show ?thesis
      proof (cases "normalize_probabilities probs")
        case (Inl e3)
        with Cons.prems g t Cons.IH show ?thesis by (simp add: a)
      next
        case (Inr r)
        with Cons.prems g t show ?thesis by (simp add: a)
      qed
    qed
  qed
qed

lemma normalize_probabilities_fails:
  assumes "(person, f) \<in> set probs"
    and "(gene_dist f \<noteq> [] \<and> sum_list (map snd (gene_dist f)) = 0)
         \<or> (trait_dist f \<noteq> [] \<and> sum_list (map snd (trait_dist f)) = 0)"
  shows "\<exists>e. normalize_probabilities probs = Inl e"
  using assms
proof (induction probs)
  case Nil
  then show ?case by simp
next
  case (Cons a probs)
  obtain q h where a: "a = (q, h)" by (cases a)
  show ?case
  proof (cases "normalize_distribution (gene_dist h)")
    case (Inl e1)
    then show ?thesis by (simp add: a)
  next
    case g: (Inr g')
    show ?thesis
    proof (cases "normalize_distribution (trait_dist h)")
      case (Inl e2)
      with g show ?thesis by (simp add: a)
    next
      case t: (Inr t')
      have "(person, f) \<noteq> (q, h)"
      proof
        assume "(person, f) = (q, h)"
        with Cons.prems(2) g t show False
          by (auto simp: normalize_distribution_zero)
      qed
      with Cons.prems(1) have "(person, f) \<in> set probs" by (auto simp: a)
      from Cons.IH [OF this Cons.prems(2)] obtain e where "normalize_probabilities probs = Inl e" ..
      with g t show ?thesis by (simp add: a)
    qed
  qed
qed

text \<open>
  Claim C6, amended. If a histogram with at least one bucket sums to exactly zero,
  \<open>normalize\<close> fails with \<open>ZeroDivisionError\<close>; it returns neither a table with an
  undefined value nor a skewed distribution.
\<close>

theorem normalize_zero_sum_raises:
  assumes "(person, f) \<in> set probs"
    and "(gene_dist f \<noteq> [] \<and> sum_list (map snd (gene_dist f)) = 0)
         \<or> (trait_dist f \<noteq> [] \<and> sum_list (map snd (trait_dist f)) = 0)"
  shows "normalize_probabilities probs = Inl ZeroDivisionError"
proof -
  from normalize_probabilities_fails [OF assms] obtain e
    where e: "normalize_probabilities probs = Inl e" ..
  from normalize_probabilities_error [OF e] e show ?thesis by simp
qed

theorem normalize_zero_sum_raises_witness:
  "normalize_probabilities zero_trait_probabilities = Inl ZeroDivisionError"
  using normalize_zero_sum_raises [of "''Harry''"
      "\<lparr>gene_dist = [(2, 0.5), (1, 0.5), (0, 0)], trait_dist = [(True, 0), (False, 0)]\<rparr>"
      zero_trait_probabilities]
  by (simp add: zero_trait_probabilities_def)

section \<open>load_data\<close>

lemma map_of_load_data_loop:
  "map_of (load_data_loop rows data)
     = map_of (rev (map (\<lambda>r. (row_name r, row_family r)) rows) @ data)"
proof (induction rows arbitrary: data)
  case Nil
  then show ?case by simp
next
  case (Cons r rows)
  let ?f = "\<lambda>r. (row_name r, row_family r)"
  have upd: "map_of (AList.update (row_name r) (row_family r) data)
               = map_of (?f r # data)"
    by (simp add: update_conv')
  have "map_of (load_data_loop (r # rows) data)
          = map_of (rev (map ?f rows) @ AList.update (row_name r) (row_family r) data)"
    by (simp only: load_data_loop.simps Cons.IH)
  also have "\<dots> = map_of (AList.update (row_name r) (row_family r) data)
                    ++ map_of (rev (map ?f rows))"
    by (simp only: map_of_append)
  also have "\<dots> = map_of (?f r # data) ++ map_of (rev (map ?f rows))"
    by (simp only: upd)
  also have "\<dots> = map_of (rev (map ?f rows) @ ?f r # data)"
    by (simp only: map_of_append)
  also have "rev (map ?f rows) @ ?f r # data = rev (map ?f (r # rows)) @ data"
    by simp
  finally show ?case .
qed

lemma distinct_load_data_loop:
  "distinct (map fst data) \<Longrightarrow> distinct (map fst (load_data_loop rows data))"
proof (induction rows arbitrary: data)
  case Nil
  then show ?case by simp
next
  case (Cons r rows)
  from Cons.prems have "distinct (map fst (AList.update (row_name r) (row_family r) data))"
    by (rule distinct_update)
  from Cons.IH [OF this] show ?case by simp
qed

lemma keys_load_data_loop:
  "fst ` set (load_data_loop rows data) = row_name ` set rows \<union> fst ` set data"
proof (induction rows arbitrary: data)
  case Nil
  then show ?case by simp
next
  case (Cons r rows)
  have "dom (map_of (AList.update (row_name r) (row_family r) data))
          = insert (row_name r) (dom (map_of data))"
    by (simp add: update_conv')
  then have "fst ` set (AList.update (row_name r) (row_family r) data)
          = insert (row_name r) (fst ` set data)"
    by (simp only: dom_map_of_conv_image_fst)
  with Cons.IH [of "AList.update (row_name r) (row_family r) data"] show ?case by auto
qed


text \<open>
  Claim C7, amended. \<open>load_data\<close> checks nothing and never fails: for every list of
  rows it returns a dictionary with one entry per name, the last row of a name
  winning, where a blank mother or father is recorded as absent and a trait other than
  "1" or "0" as unknown (\<open>row_family\<close>).
\<close>

theorem load_data_validates_nothing:
  "distinct (map fst (load_data rows))
   \<and> fst ` set (load_data rows) = row_name ` set rows
   \<and> map_of (load_data rows) = map_of (rev (map (\<lambda>r. (row_name r, row_family r)) rows))
   \<and> map_of (load_data (rows @ [r])) (row_name r) = Some (row_family r)"
proof -
  have "distinct (map fst (load_data rows))"
    unfolding load_data_def by (rule distinct_load_data_loop) simp
  moreover have "fst ` set (load_data rows) = row_name ` set rows"
    unfolding load_data_def by (simp only: keys_load_data_loop) simp
  moreover have "map_of (load_data rows)
      = map_of (rev (map (\<lambda>r. (row_name r, row_family r)) rows))"
    unfolding load_data_def by (simp only: map_of_load_data_loop) simp
  moreover have "map_of (load_data (rows @ [r])) (row_name r) = Some (row_family r)"
    unfolding load_data_def by (simp only: map_of_load_data_loop) simp
  ultimately show ?thesis by blast
qed

lemma powerset_Nil: "powerset [] = [{}]"
  by (simp add: powerset_def)

lemma powerset_single: "powerset [x] = [{}, {x}]"
  by (simp add: powerset_def upt_rec numeral_nat)

lemma one_parent_joint:
  "joint_probability one_parent_family {} {} ht
     = Inr (0.955845 * (if ''Harry'' \<in> ht then 0.01 else 0.99))"
  "joint_probability one_parent_family {''Harry''} {} ht
     = Inr (0.04381 * (if ''Harry'' \<in> ht then 0.56 else 0.44))"
  "joint_probability one_parent_family {} {''Harry''} ht
     = Inr (0.000345 * (if ''Harry'' \<in> ht then 0.65 else 0.35))"
  by (simp_all add: one_parent_family_def joint_probability_def
        joint_probability_person_def gene_count_def parent_gene_count_def py_in_def
        getitem_trait traitLikelihood_simps PROBS_mutation_def py_mul_def
        get_parent_gene_probability_def get_unknown_parent_gene_probability_def
        PROBS_gene_simps)

lemma one_parent_names: "map fst one_parent_family = [''Harry'']"
  by (simp add: one_parent_family_def)

lemma one_parent_init:
  "init_probabilities one_parent_family
     = [(''Harry'', \<lparr>gene_dist = [(2, 0), (1, 0), (0, 0)],
                      trait_dist = [(True, 0), (False, 0)]\<rparr>)]"
  by (simp add: one_parent_family_def init_probabilities_def)

lemma one_parent_evidence: "fails_evidence one_parent_family ht [''Harry''] = Inr False"
  by (simp add: one_parent_family_def getitem_def)

lemma one_parent_loop:
  "main_loop one_parent_family
       = Inr \<lparr>run_probabilities = [(''Harry'',
               \<lparr>gene_dist = [(2, 0.000345), (1, 0.04381), (0, 0.955845)],
                trait_dist = [(True, 0.0343163), (False, 0.9656837)]\<rparr>)],
              run_calls = [({}, {}, {}), ({}, {''Harry''}, {}), ({''Harry''}, {}, {}),
                ({}, {}, {''Harry''}), ({}, {''Harry''}, {''Harry''}),
                ({''Harry''}, {}, {''Harry''})]\<rparr>"
  by (simp add: main_loop_def Let_def one_parent_names one_parent_init one_parent_evidence
        powerset_single powerset_Nil one_parent_joint add_at_def gene_count_def
        del: fails_evidence.simps)

text \<open>
  Claim C7 as stated demands a DataError. A row with a father and no mother, whose
  father is not in the file and whose trait is "x", is loaded, and \<open>main\<close> runs the
  inference on it to the end.
\<close>

theorem load_data_malformed_counterexample:
  "load_data [malformed_row] = one_parent_family
   \<and> main [malformed_row]
       = Inr [(''Harry'',
               \<lparr>gene_dist = [(2, 0.000345), (1, 0.04381), (0, 0.955845)],
                trait_dist = [(True, 0.0343163), (False, 0.9656837)]\<rparr>)]"
proof -
  have l: "load_data [malformed_row] = one_parent_family"
    by (simp add: load_data_def malformed_row_def one_parent_family_def row_family_def)
  have "main_people one_parent_family
       = Inr [(''Harry'',
               \<lparr>gene_dist = [(2, 0.000345), (1, 0.04381), (0, 0.955845)],
                trait_dist = [(True, 0.0343163), (False, 0.9656837)]\<rparr>)]"
    by (simp add: main_people_def one_parent_loop normalize_distribution_def)
  with l show ?thesis by (simp add: main_def)
qed

section \<open>powerset lists every subset once\<close>

lemma combinations_filter:
  "combinations xs r = filter (\<lambda>ys. length ys = r) (subseqs xs)"
proof (induction xs arbitrary: r)
  case Nil
  then show ?case by (cases r) simp_all
next
  case (Cons x xs)
  show ?case
  proof (cases r)
    case 0
    have "filter (\<lambda>ys. length ys = 0) (subseqs (x # xs))
            = filter (\<lambda>ys. length ys = 0) (subseqs xs)"
      by (simp add: Let_def filter_map o_def)
    also have "\<dots> = combinations xs 0" by (simp only: Cons.IH)
    finally show ?thesis using 0 by simp
  next
    case (Suc k)
    have "filter (\<lambda>ys. length ys = Suc k) (subseqs (x # xs))
            = map ((#) x) (filter (\<lambda>ys. length ys = k) (subseqs xs))
              @ filter (\<lambda>ys. length ys = Suc k) (subseqs xs)"
      by (simp add: Let_def filter_map o_def)
    then show ?thesis using Suc by (simp add: Cons.IH)
  qed
qed

lemma length_subseqs_le: "ys \<in> set (subseqs xs) \<Longrightarrow> length ys \<le> length xs"
proof (induction xs arbitrary: ys)
  case Nil
  then show ?case by simp
next
  case (Cons x xs)
  from Cons.prems consider zs where "ys = x # zs" "zs \<in> set (subseqs xs)"
    | "ys \<in> set (subseqs xs)"
    by (auto simp: Let_def)
  then show ?case
  proof cases
    case 1
    with Cons.IH [of zs] show ?thesis by simp
  next
    case 2
    with Cons.IH [of ys] show ?thesis by simp
  qed
qed

lemma mset_concat_filter_length:
  "mset (concat (map (\<lambda>r. filter (\<lambda>ys. length ys = r) L) [0..<m]))
     = mset (filter (\<lambda>ys. length ys < m) L)"
proof (induction m)
  case 0
  then show ?case by simp
next
  case (Suc m)
  have "filter_mset (\<lambda>ys. length ys < m) (mset L) + filter_mset (\<lambda>ys. length ys = m) (mset L)
          = filter_mset (\<lambda>ys. length ys < Suc m) (mset L)"
    by (rule multiset_eqI) (auto simp: less_Suc_eq)
  with Suc show ?case by simp
qed

lemma mset_combinations:
  "mset (concat (map (combinations xs) [0..<length xs + 1])) = mset (subseqs xs)"
proof -
  have c: "combinations xs = (\<lambda>r. filter (\<lambda>ys. length ys = r) (subseqs xs))"
    by (rule ext) (rule combinations_filter)
  have "mset (concat (map (combinations xs) [0..<length xs + 1]))
     = mset (filter (\<lambda>ys. length ys < length xs + 1) (subseqs xs))"
    unfolding c by (rule mset_concat_filter_length)
  also have "filter (\<lambda>ys. length ys < length xs + 1) (subseqs xs) = subseqs xs"
  proof (rule filter_True, rule ballI)
    fix ys assume "ys \<in> set (subseqs xs)"
    from length_subseqs_le [OF this] show "length ys < length xs + 1" by simp
  qed
  finally show ?thesis .
qed

lemma mset_powerset: "mset (powerset xs) = mset (map set (subseqs xs))"
proof -
  have "mset (powerset xs)
          = image_mset set (mset (concat (map (combinations xs) [0..<length xs + 1])))"
    unfolding powerset_def by (rule mset_map)
  also have "\<dots> = image_mset set (mset (subseqs xs))"
    by (simp only: mset_combinations)
  also have "\<dots> = mset (map set (subseqs xs))" by (rule mset_map [symmetric])
  finally show ?thesis .
qed

lemma set_powerset: "set (powerset xs) = Pow (set xs)"
proof -
  have "set (powerset xs) = set (map set (subseqs xs))"
    using mset_powerset [of xs] by (rule mset_eq_setD)
  also have "\<dots> = Pow (set xs)" by (simp only: set_map subseqs_powset)
  finally show ?thesis .
qed

lemma distinct_powerset:
  assumes "distinct xs"
  shows "distinct (powerset xs)"
proof -
  from assms have "distinct (map set (subseqs xs))" by (rule distinct_set_subseqs)
  then show ?thesis
    by (simp only: mset_eq_imp_distinct_iff [OF mset_powerset])
qed

lemma sum_list_powerset:
  fixes f :: "'a set \<Rightarrow> real"
  shows "sum_list (map f (powerset xs)) = sum_list (map f (map set (subseqs xs)))"
proof -
  have "mset (map f (powerset xs)) = mset (map f (map set (subseqs xs)))"
    by (simp only: mset_map mset_powerset)
  then have "sum_mset (mset (map f (powerset xs)))
               = sum_mset (mset (map f (map set (subseqs xs))))"
    by (rule arg_cong)
  then show ?thesis by (simp only: sum_mset_sum_list)
qed

lemma length_powerset: "length (powerset xs) = 2 ^ length xs"
proof -
  have "length (powerset xs) = size (mset (powerset xs))" by (rule size_mset [symmetric])
  also have "\<dots> = size (mset (map set (subseqs xs)))" by (simp only: mset_powerset)
  also have "\<dots> = length (subseqs xs)" by (simp only: size_mset length_map)
  also have "\<dots> = 2 ^ length xs" by (rule length_subseqs)
  finally show ?thesis .
qed

section \<open>The loops of main\<close>

lemma joint_probability_person_total:
  "\<exists>v. joint_probability_person og tg ht person fam = Inr v"
proof -
  have g: "gene_count person og tg = 0 \<or> gene_count person og tg = 1
             \<or> gene_count person og tg = 2"
    by (rule gene_count_cases)
  have p: "\<And>c parent. \<exists>v. get_parent_gene_probability c parent
                              (parent_gene_count parent og tg) = Some v"
    using parent_gene_count_cases
    by (auto simp: get_parent_gene_probability_def)
  obtain a where a: "get_parent_gene_probability True (mother fam)
                       (parent_gene_count (mother fam) og tg) = Some a" using p by blast
  obtain b where b: "get_parent_gene_probability False (mother fam)
                       (parent_gene_count (mother fam) og tg) = Some b" using p by blast
  obtain c where c: "get_parent_gene_probability True (father fam)
                       (parent_gene_count (father fam) og tg) = Some c" using p by blast
  obtain d where d: "get_parent_gene_probability False (father fam)
                       (parent_gene_count (father fam) og tg) = Some d" using p by blast
  from g show ?thesis
    by (auto simp: joint_probability_person_def Let_def getitem_trait getitem_gene
          py_mul_def a b c d)
qed

lemma joint_probability_loop_total:
  "\<exists>v. joint_probability_loop people og tg ht acc = Inr v"
proof (induction people arbitrary: acc)
  case Nil
  then show ?case by simp
next
  case (Cons x people)
  obtain person fam where x: "x = (person, fam)" by (cases x)
  obtain v where v: "joint_probability_person og tg ht person fam = Inr v"
    using joint_probability_person_total by blast
  from Cons.IH [of "acc * v"] show ?case by (simp add: x v)
qed

lemma joint_probability_total:
  "joint_probability people og tg ht = Inr (joint_value people og tg ht)"
proof -
  obtain v where "joint_probability people og tg ht = Inr v"
    unfolding joint_probability_def using joint_probability_loop_total by blast
  then show ?thesis by (simp add: joint_value_def)
qed

lemma gene_mass_snoc:
  "gene_mass people (cs @ [(og, tg, ht)]) person g
     = gene_mass people cs person g
       + (if gene_count person og tg = g then joint_value people og tg ht else 0)"
  by (simp add: gene_mass_def)

lemma trait_mass_snoc:
  "trait_mass people (cs @ [(og, tg, ht)]) person t
     = trait_mass people cs person t
       + (if (person \<in> ht) = t then joint_value people og tg ht else 0)"
  by (simp add: trait_mass_def)

lemma add_at_gene:
  assumes "g = 0 \<or> g = 1 \<or> g = 2"
  shows "add_at [(2, a), (1, b), (0, c)] g p
           = Inr [(2, a + (if g = 2 then p else 0)), (1, b + (if g = 1 then p else 0)),
                  (0::int, c + (if g = 0 then p else 0))]"
  using assms by (auto simp: add_at_def)

lemma add_at_trait:
  "add_at [(True, a), (False, b)] t p
     = Inr [(True, a + (if t then p else 0)), (False, b + (if t then 0 else p))]"
  by (cases t) (simp_all add: add_at_def)

lemma update_accumulated_features:
  "py_bind (add_at (gene_dist (accumulated_features people cs person))
              (gene_count person og tg) (joint_value people og tg ht)) (\<lambda>g'.
   py_bind (add_at (trait_dist (accumulated_features people cs person))
              (person \<in> ht) (joint_value people og tg ht)) (\<lambda>t'. k g' t'))
   = k (gene_dist (accumulated_features people (cs @ [(og, tg, ht)]) person))
       (trait_dist (accumulated_features people (cs @ [(og, tg, ht)]) person))"
  using gene_count_cases [of person og tg]
  by (auto simp: accumulated_features_def add_at_gene add_at_trait gene_mass_snoc
        trait_mass_snoc)

lemma update_accumulated:
  "update (map (\<lambda>(person, family). (person, accumulated_features people cs person)) entries)
      og tg ht (joint_value people og tg ht)
     = Inr (map (\<lambda>(person, family).
              (person, accumulated_features people (cs @ [(og, tg, ht)]) person)) entries)"
proof (induction entries)
  case Nil
  then show ?case by simp
next
  case (Cons e entries)
  obtain person fam where e: "e = (person, fam)" by (cases e)
  have r: "\<lparr>gene_dist = gene_dist (accumulated_features people (cs @ [(og, tg, ht)]) person),
            trait_dist = trait_dist (accumulated_features people (cs @ [(og, tg, ht)]) person)\<rparr>
           = accumulated_features people (cs @ [(og, tg, ht)]) person"
    by simp
  show ?case
    by (simp add: e Let_def update_accumulated_features Cons.IH r del: features.simps)
qed

lemma loop_two_genes_run:
  "loop_two_genes people ht og tgs (run_after people cs)
     = Inr (run_after people (cs @ map (\<lambda>tg. (og, tg, ht)) tgs))"
proof (induction tgs arbitrary: cs)
  case Nil
  then show ?case by simp
next
  case (Cons tg tgs)
  have "loop_two_genes people ht og (tg # tgs) (run_after people cs)
          = loop_two_genes people ht og tgs (run_after people (cs @ [(og, tg, ht)]))"
    by (simp add: joint_probability_total run_after_def update_accumulated)
  then show ?case by (simp add: Cons.IH)
qed

lemma loop_one_gene_run:
  "loop_one_gene people names ht ogs (run_after people cs)
     = Inr (run_after people (cs @ concat (map (\<lambda>og. map (\<lambda>tg. (og, tg, ht))
              (powerset (filter (\<lambda>n. n \<notin> og) names))) ogs)))"
proof (induction ogs arbitrary: cs)
  case Nil
  then show ?case by simp
next
  case (Cons og ogs)
  show ?case by (simp add: loop_two_genes_run Cons.IH)
qed

lemma fails_evidence_entries:
  assumes "\<And>person fam. (person, fam) \<in> set entries \<Longrightarrow> map_of people person = Some fam"
  shows "fails_evidence people ht (map fst entries) = Inr (\<not> respects_evidence entries ht)"
  using assms
proof (induction entries)
  case Nil
  then show ?case by (simp add: respects_evidence_def)
next
  case (Cons e entries)
  obtain person fam where e: "e = (person, fam)" by (cases e)
  have l: "map_of people person = Some fam" using Cons.prems [of person fam] by (simp add: e)
  have r: "fails_evidence people ht (map fst entries)
             = Inr (\<not> respects_evidence entries ht)"
    by (rule Cons.IH) (simp add: Cons.prems)
  show ?case
    by (cases "trait fam") (auto simp: e getitem_def l r respects_evidence_def)
qed

lemma fails_evidence_people:
  assumes "distinct (map fst people)"
  shows "fails_evidence people ht (map fst people) = Inr (\<not> respects_evidence people ht)"
  by (rule fails_evidence_entries) (simp add: assms)

lemma loop_have_trait_run:
  assumes "distinct (map fst people)"
  shows "loop_have_trait people (map fst people) hts (run_after people cs)
     = Inr (run_after people (cs @ concat (map (\<lambda>ht.
         if respects_evidence people ht
         then map (\<lambda>(og, tg). (og, tg, ht)) (gene_assignments (map fst people))
         else []) hts)))"
proof (induction hts arbitrary: cs)
  case Nil
  then show ?case by simp
next
  case (Cons ht hts)
  have g: "concat (map (\<lambda>og. map (\<lambda>tg. (og, tg, ht))
              (powerset (filter (\<lambda>n. n \<notin> og) (map fst people)))) (powerset (map fst people)))
           = map (\<lambda>(og, tg). (og, tg, ht)) (gene_assignments (map fst people))"
    by (simp add: gene_assignments_def map_concat o_def)
  show ?case
    by (simp add: fails_evidence_people [OF assms] loop_one_gene_run Cons.IH g
          del: fails_evidence.simps)
qed

lemma init_probabilities_run:
  "\<lparr>run_probabilities = init_probabilities people, run_calls = []\<rparr> = run_after people []"
  by (simp add: run_after_def init_probabilities_def accumulated_features_def
        gene_mass_def trait_mass_def)

lemma main_loop_run:
  assumes "distinct (map fst people)"
  shows "main_loop people = Inr (run_after people (assignments people))"
  unfolding main_loop_def Let_def init_probabilities_run
  by (simp add: loop_have_trait_run [OF assms] assignments_def)

section \<open>Evidence and enumeration\<close>

lemma distinct_concat_map:
  assumes "distinct xs"
    and "\<And>x. x \<in> set xs \<Longrightarrow> distinct (f x)"
    and "\<And>x y. x \<in> set xs \<Longrightarrow> y \<in> set xs \<Longrightarrow> x \<noteq> y \<Longrightarrow> set (f x) \<inter> set (f y) = {}"
  shows "distinct (concat (map f xs))"
  using assms
proof (induction xs)
  case Nil
  then show ?case by simp
next
  case (Cons a xs)
  have "distinct (concat (map f xs))"
    by (rule Cons.IH) (use Cons.prems in auto)
  moreover have "distinct (f a)" using Cons.prems(2) by simp
  moreover have "set (f a) \<inter> set (f y) = {}" if "y \<in> set xs" for y
    using Cons.prems(1) Cons.prems(3) [of a y] that by auto
  ultimately show ?case by auto
qed

lemma set_gene_assignments:
  "set (gene_assignments names)
     = {(og, tg). og \<subseteq> set names \<and> tg \<subseteq> set names \<and> og \<inter> tg = {}}"
proof (rule set_eqI)
  fix c :: "string set \<times> string set"
  obtain og tg where c: "c = (og, tg)" by (cases c)
  have "tg \<subseteq> {n \<in> set names. n \<notin> og} \<longleftrightarrow> tg \<subseteq> set names \<and> og \<inter> tg = {}"
    by auto
  then show "c \<in> set (gene_assignments names)
     \<longleftrightarrow> c \<in> {(og, tg). og \<subseteq> set names \<and> tg \<subseteq> set names \<and> og \<inter> tg = {}}"
    by (auto simp: c gene_assignments_def set_powerset)
qed

lemma distinct_gene_assignments:
  assumes "distinct names"
  shows "distinct (gene_assignments names)"
  unfolding gene_assignments_def
proof (rule distinct_concat_map)
  show "distinct (powerset names)" using assms by (rule distinct_powerset)
next
  fix og :: "string set"
  have "distinct (powerset (filter (\<lambda>n. n \<notin> og) names))"
    by (rule distinct_powerset) (simp add: assms)
  then show "distinct (map (\<lambda>tg. (og, tg)) (powerset (filter (\<lambda>n. n \<notin> og) names)))"
    by (simp add: distinct_map inj_on_def)
next
  fix og og' :: "string set"
  assume "og \<noteq> og'"
  then show "set (map (\<lambda>tg. (og, tg)) (powerset (filter (\<lambda>n. n \<notin> og) names)))
       \<inter> set (map (\<lambda>tg. (og', tg)) (powerset (filter (\<lambda>n. n \<notin> og') names))) = {}"
    by auto
qed

lemma set_assignments:
  "set (assignments people)
     = {(og, tg, ht). ht \<subseteq> fst ` set people \<and> respects_evidence people ht
          \<and> og \<subseteq> fst ` set people \<and> tg \<subseteq> fst ` set people \<and> og \<inter> tg = {}}"
  by (auto simp: assignments_def set_powerset set_gene_assignments)

lemma distinct_assignments:
  assumes "distinct (map fst people)"
  shows "distinct (assignments people)"
  unfolding assignments_def
proof (rule distinct_concat_map)
  show "distinct (powerset (map fst people))" using assms by (rule distinct_powerset)
next
  fix ht :: "string set"
  have "distinct (map (\<lambda>(og, tg). (og, tg, ht)) (gene_assignments (map fst people)))"
    using distinct_gene_assignments [OF assms]
    by (auto simp: distinct_map inj_on_def)
  then show "distinct (if respects_evidence people ht
          then map (\<lambda>(og, tg). (og, tg, ht)) (gene_assignments (map fst people)) else [])"
    by simp
next
  fix ht ht' :: "string set"
  assume "ht \<noteq> ht'"
  then show "set (if respects_evidence people ht
          then map (\<lambda>(og, tg). (og, tg, ht)) (gene_assignments (map fst people)) else [])
       \<inter> set (if respects_evidence people ht'
          then map (\<lambda>(og, tg). (og, tg, ht')) (gene_assignments (map fst people)) else []) = {}"
    by auto
qed

lemma assignments_single:
  assumes "trait fam = None"
  shows "assignments [(person, fam)]
           = [({}, {}, {}), ({}, {person}, {}), ({person}, {}, {}),
              ({}, {}, {person}), ({}, {person}, {person}), ({person}, {}, {person})]"
  by (simp add: assignments_def gene_assignments_def respects_evidence_def assms
        powerset_single powerset_Nil)

text \<open>
  Claim C3. Every assignment that \<open>main\<close> evaluates and accumulates agrees with the
  recorded trait evidence: a person with evidence true is in \<open>have_trait\<close>, a person
  with evidence false is not. The trait subsets that reach the gene loops are exactly
  the subsets of the names that agree with the evidence, so a contradicting subset is
  dropped before any gene enumeration and unknown evidence excludes nothing.
\<close>

theorem evaluated_assignments_respect_evidence:
  assumes "distinct (map fst people)"
  shows "\<exists>st. main_loop people = Inr st
     \<and> (\<forall>(og, tg, ht) \<in> set (run_calls st). \<forall>(person, fam) \<in> set people.
           (trait fam = Some True \<longrightarrow> person \<in> ht)
           \<and> (trait fam = Some False \<longrightarrow> person \<notin> ht))
     \<and> {ht. \<exists>og tg. (og, tg, ht) \<in> set (run_calls st)}
         = {ht. ht \<subseteq> fst ` set people \<and> respects_evidence people ht}"
proof -
  let ?st = "run_after people (assignments people)"
  have c: "run_calls ?st = assignments people" by (simp add: run_after_def)
  have 1: "main_loop people = Inr ?st" using assms by (rule main_loop_run)
  have 2: "\<forall>(og, tg, ht) \<in> set (run_calls ?st). \<forall>(person, fam) \<in> set people.
           (trait fam = Some True \<longrightarrow> person \<in> ht)
           \<and> (trait fam = Some False \<longrightarrow> person \<notin> ht)"
    unfolding c set_assignments
    by (auto simp: respects_evidence_def list_all_iff)
  have 3: "{ht. \<exists>og tg. (og, tg, ht) \<in> set (run_calls ?st)}
         = {ht. ht \<subseteq> fst ` set people \<and> respects_evidence people ht}"
    unfolding c set_assignments by auto
  from 1 2 3 show ?thesis by blast
qed

theorem evaluated_assignments_respect_evidence_witness:
  "\<exists>st. main_loop harry_family = Inr st
     \<and> (\<forall>(og, tg, ht) \<in> set (run_calls st). ''James'' \<in> ht \<and> ''Lily'' \<notin> ht)"
proof -
  have "distinct (map fst harry_family)" by (simp add: harry_family_def)
  from evaluated_assignments_respect_evidence [OF this] obtain st
    where st: "main_loop harry_family = Inr st"
      and ev: "\<forall>(og, tg, ht) \<in> set (run_calls st). \<forall>(person, fam) \<in> set harry_family.
           (trait fam = Some True \<longrightarrow> person \<in> ht)
           \<and> (trait fam = Some False \<longrightarrow> person \<notin> ht)"
    by blast
  from ev have "\<forall>(og, tg, ht) \<in> set (run_calls st). ''James'' \<in> ht \<and> ''Lily'' \<notin> ht"
    by (auto simp: harry_family_def)
  with st show ?thesis by blast
qed

text \<open>
  Claim C4. The enumeration is exhaustive: \<open>joint_probability\<close> is called exactly once
  for every trait subset that agrees with the evidence and every pair of disjoint
  subsets (one copy, two copies) of the names; for one individual without evidence that
  makes 6 calls. Every logged call is a call that was evaluated and accumulated: each
  returns its joint probability, and the histograms the loops end with are those that
  \<open>update\<close> builds from the joint probabilities of exactly the logged calls, a person
  outside both gene sets counting under zero copies (\<open>gene_count\<close>).
\<close>

theorem enumeration_exhaustive:
  assumes "distinct (map fst people)"
  shows "\<exists>st. main_loop people = Inr st
     \<and> distinct (run_calls st)
     \<and> set (run_calls st)
         = {(og, tg, ht). ht \<subseteq> fst ` set people \<and> respects_evidence people ht
              \<and> og \<subseteq> fst ` set people \<and> tg \<subseteq> fst ` set people \<and> og \<inter> tg = {}}
     \<and> (length people = 1 \<and> list_all (\<lambda>(person, fam). trait fam = None) people
          \<longrightarrow> length (run_calls st) = 6)
     \<and> st = run_after people (run_calls st)
     \<and> (\<forall>(og, tg, ht) \<in> set (run_calls st).
           joint_probability people og tg ht = Inr (joint_value people og tg ht))"
proof -
  let ?st = "run_after people (assignments people)"
  have c: "run_calls ?st = assignments people" by (simp add: run_after_def)
  have 1: "main_loop people = Inr ?st" using assms by (rule main_loop_run)
  have 2: "distinct (run_calls ?st)" unfolding c using assms by (rule distinct_assignments)
  have 3: "set (run_calls ?st)
         = {(og, tg, ht). ht \<subseteq> fst ` set people \<and> respects_evidence people ht
              \<and> og \<subseteq> fst ` set people \<and> tg \<subseteq> fst ` set people \<and> og \<inter> tg = {}}"
    unfolding c by (rule set_assignments)
  have 4: "length (run_calls ?st) = 6"
    if "length people = 1 \<and> list_all (\<lambda>(person, fam). trait fam = None) people"
  proof -
    from that obtain person fam where p: "people = [(person, fam)]"
      by (cases people) auto
    with that have "trait fam = None" by simp
    then show ?thesis by (simp add: p run_after_def assignments_single)
  qed
  have 5: "?st = run_after people (run_calls ?st)" by (simp only: c)
  have 6: "\<forall>(og, tg, ht) \<in> set (run_calls ?st).
           joint_probability people og tg ht = Inr (joint_value people og tg ht)"
    by (simp add: joint_probability_total)
  from 1 2 3 4 5 6 show ?thesis by blast
qed

theorem enumeration_exhaustive_witness:
  "\<exists>st. main_loop one_parent_family = Inr st
     \<and> distinct (run_calls st) \<and> length (run_calls st) = 6
     \<and> st = run_after one_parent_family (run_calls st)
     \<and> run_probabilities st
         = [(''Harry'',
             \<lparr>gene_dist = [(2, 0.000345), (1, 0.04381), (0, 0.955845)],
              trait_dist = [(True, 0.0343163), (False, 0.9656837)]\<rparr>)]"
proof -
  have "distinct (map fst one_parent_family)" by (simp add: one_parent_family_def)
  from enumeration_exhaustive [OF this] obtain st
    where st: "main_loop one_parent_family = Inr st" and d: "distinct (run_calls st)"
      and l: "length one_parent_family = 1
         \<and> list_all (\<lambda>(person, fam). trait fam = None) one_parent_family
       \<longrightarrow> length (run_calls st) = 6"
      and r: "st = run_after one_parent_family (run_calls st)"
    by blast
  from l have 6: "length (run_calls st) = 6" by (simp add: one_parent_family_def)
  from st have p: "run_probabilities st
         = [(''Harry'',
             \<lparr>gene_dist = [(2, 0.000345), (1, 0.04381), (0, 0.955845)],
              trait_dist = [(True, 0.0343163), (False, 0.9656837)]\<rparr>)]"
    by (auto simp: one_parent_loop)
  from st d 6 r p show ?thesis by blast
qed

section \<open>Sums over all assignments\<close>

lemma subseqs_subset: "S \<in> set (map set (subseqs xs)) \<Longrightarrow> S \<subseteq> set xs"
  using subseqs_powset [of xs] by auto

lemma sum_subsets_Cons:
  fixes f :: "'a set \<Rightarrow> real"
  shows "(\<Sum>S\<leftarrow>map set (subseqs (x # xs)). f S)
           = (\<Sum>S\<leftarrow>map set (subseqs xs). f (insert x S)) + (\<Sum>S\<leftarrow>map set (subseqs xs). f S)"
  by (simp add: Let_def o_def)

lemma sum_list_cong_set:
  fixes f g :: "'a \<Rightarrow> real"
  assumes "\<And>x. x \<in> set xs \<Longrightarrow> f x = g x"
  shows "(\<Sum>x\<leftarrow>xs. f x) = (\<Sum>x\<leftarrow>xs. g x)"
proof -
  have "map f xs = map g xs" using assms by (rule map_cong [OF refl])
  then show ?thesis by (rule arg_cong)
qed

lemma filter_insert_in:
  assumes "x \<notin> set xs"
  shows "filter (\<lambda>n. n \<notin> insert x og) (x # xs) = filter (\<lambda>n. n \<notin> og) xs"
proof -
  have "filter (\<lambda>n. n \<notin> insert x og) xs = filter (\<lambda>n. n \<notin> og) xs"
    by (rule filter_cong [OF refl]) (use assms in auto)
  then show ?thesis by simp
qed

lemma gene_sum_Cons:
  fixes G :: "string set \<Rightarrow> string set \<Rightarrow> real"
  assumes "x \<notin> set xs"
  shows "(\<Sum>og\<leftarrow>map set (subseqs (x # xs)).
            \<Sum>tg\<leftarrow>map set (subseqs (filter (\<lambda>n. n \<notin> og) (x # xs))). G og tg)
       = (\<Sum>og\<leftarrow>map set (subseqs xs).
            \<Sum>tg\<leftarrow>map set (subseqs (filter (\<lambda>n. n \<notin> og) xs)). G (insert x og) tg)
         + (\<Sum>og\<leftarrow>map set (subseqs xs).
            \<Sum>tg\<leftarrow>map set (subseqs (filter (\<lambda>n. n \<notin> og) xs)). G og (insert x tg))
         + (\<Sum>og\<leftarrow>map set (subseqs xs).
            \<Sum>tg\<leftarrow>map set (subseqs (filter (\<lambda>n. n \<notin> og) xs)). G og tg)"
proof -
  let ?I = "\<lambda>ys og H. (\<Sum>tg\<leftarrow>map set (subseqs (filter (\<lambda>n. n \<notin> og) ys)). (H tg :: real))"
  have a: "(\<Sum>og\<leftarrow>map set (subseqs xs). ?I (x # xs) (insert x og) (G (insert x og)))
             = (\<Sum>og\<leftarrow>map set (subseqs xs). ?I xs og (G (insert x og)))"
    by (simp only: filter_insert_in [OF assms])
  have b: "(\<Sum>og\<leftarrow>map set (subseqs xs). ?I (x # xs) og (G og))
             = (\<Sum>og\<leftarrow>map set (subseqs xs).
                  ?I xs og (\<lambda>tg. G og (insert x tg)) + ?I xs og (G og))"
  proof (rule sum_list_cong_set)
    fix og assume "og \<in> set (map set (subseqs xs))"
    then have "x \<notin> og" using subseqs_subset assms by blast
    then have "filter (\<lambda>n. n \<notin> og) (x # xs) = x # filter (\<lambda>n. n \<notin> og) xs" by simp
    then show "?I (x # xs) og (G og) = ?I xs og (\<lambda>tg. G og (insert x tg)) + ?I xs og (G og)"
      by (simp only: sum_subsets_Cons)
  qed
  have "(\<Sum>og\<leftarrow>map set (subseqs (x # xs)). ?I (x # xs) og (G og))
          = (\<Sum>og\<leftarrow>map set (subseqs xs). ?I (x # xs) (insert x og) (G (insert x og)))
            + (\<Sum>og\<leftarrow>map set (subseqs xs). ?I (x # xs) og (G og))"
    by (rule sum_subsets_Cons)
  also have "\<dots> = (\<Sum>og\<leftarrow>map set (subseqs xs). ?I xs og (G (insert x og)))
            + (\<Sum>og\<leftarrow>map set (subseqs xs).
                  ?I xs og (\<lambda>tg. G og (insert x tg)) + ?I xs og (G og))"
    by (simp only: a b)
  also have "\<dots> = (\<Sum>og\<leftarrow>map set (subseqs xs). ?I xs og (G (insert x og)))
            + ((\<Sum>og\<leftarrow>map set (subseqs xs). ?I xs og (\<lambda>tg. G og (insert x tg)))
               + (\<Sum>og\<leftarrow>map set (subseqs xs). ?I xs og (G og)))"
    by (simp only: sum_list_addf)
  finally show ?thesis by (simp only: add.assoc)
qed

lemma triple_sum_Nil: "triple_sum [] F = F {} {} {}"
  by (simp add: triple_sum_def)

lemma triple_sum_Cons:
  assumes "x \<notin> set xs"
  shows "triple_sum (x # xs) F
       = triple_sum xs (\<lambda>og tg ht. F (insert x og) tg (insert x ht))
         + triple_sum xs (\<lambda>og tg ht. F og (insert x tg) (insert x ht))
         + triple_sum xs (\<lambda>og tg ht. F og tg (insert x ht))
         + (triple_sum xs (\<lambda>og tg ht. F (insert x og) tg ht)
            + triple_sum xs (\<lambda>og tg ht. F og (insert x tg) ht)
            + triple_sum xs F)"
proof -
  let ?K = "\<lambda>ys H. (\<Sum>og\<leftarrow>map set (subseqs ys).
              \<Sum>tg\<leftarrow>map set (subseqs (filter (\<lambda>n. n \<notin> og) ys)). (H og tg :: real))"
  have "triple_sum (x # xs) F
          = (\<Sum>ht\<leftarrow>map set (subseqs (x # xs)). ?K (x # xs) (\<lambda>og tg. F og tg ht))"
    by (simp only: triple_sum_def)
  also have "\<dots> = (\<Sum>ht\<leftarrow>map set (subseqs xs). ?K (x # xs) (\<lambda>og tg. F og tg (insert x ht)))
                    + (\<Sum>ht\<leftarrow>map set (subseqs xs). ?K (x # xs) (\<lambda>og tg. F og tg ht))"
    by (rule sum_subsets_Cons)
  also have "\<dots> = (\<Sum>ht\<leftarrow>map set (subseqs xs).
                       ?K xs (\<lambda>og tg. F (insert x og) tg (insert x ht))
                       + ?K xs (\<lambda>og tg. F og (insert x tg) (insert x ht))
                       + ?K xs (\<lambda>og tg. F og tg (insert x ht)))
                    + (\<Sum>ht\<leftarrow>map set (subseqs xs).
                       ?K xs (\<lambda>og tg. F (insert x og) tg ht)
                       + ?K xs (\<lambda>og tg. F og (insert x tg) ht)
                       + ?K xs (\<lambda>og tg. F og tg ht))"
    by (simp only: gene_sum_Cons [OF assms])
  also have "\<dots> = triple_sum xs (\<lambda>og tg ht. F (insert x og) tg (insert x ht))
         + triple_sum xs (\<lambda>og tg ht. F og (insert x tg) (insert x ht))
         + triple_sum xs (\<lambda>og tg ht. F og tg (insert x ht))
         + (triple_sum xs (\<lambda>og tg ht. F (insert x og) tg ht)
            + triple_sum xs (\<lambda>og tg ht. F og (insert x tg) ht)
            + triple_sum xs F)"
    by (simp only: triple_sum_def sum_list_addf)
  finally show ?thesis .
qed

lemma triple_sum_cong:
  assumes "\<And>og tg ht. og \<subseteq> set xs \<Longrightarrow> tg \<subseteq> set xs \<Longrightarrow> ht \<subseteq> set xs
             \<Longrightarrow> F og tg ht = G og tg ht"
  shows "triple_sum xs F = triple_sum xs G"
  unfolding triple_sum_def
proof (rule sum_list_cong_set, rule sum_list_cong_set, rule sum_list_cong_set)
  fix ht og tg
  assume ht: "ht \<in> set (map set (subseqs xs))" and og: "og \<in> set (map set (subseqs xs))"
    and tg: "tg \<in> set (map set (subseqs (filter (\<lambda>n. n \<notin> og) xs)))"
  from tg have "tg \<subseteq> set (filter (\<lambda>n. n \<notin> og) xs)" by (rule subseqs_subset)
  then have "tg \<subseteq> set xs" by auto
  moreover from ht have "ht \<subseteq> set xs" by (rule subseqs_subset)
  moreover from og have "og \<subseteq> set xs" by (rule subseqs_subset)
  ultimately show "F og tg ht = G og tg ht" by (intro assms)
qed

lemma triple_sum_mult:
  "triple_sum xs (\<lambda>og tg ht. c * F og tg ht) = c * triple_sum xs F"
  by (simp only: triple_sum_def sum_list_const_mult)

lemma triple_sum_shift:
  assumes x: "x \<notin> set xs"
    and rest: "\<And>og tg ht p. og \<subseteq> set xs \<Longrightarrow> tg \<subseteq> set xs \<Longrightarrow> ht \<subseteq> set xs \<Longrightarrow> p \<in> set xs
        \<Longrightarrow> gene_count p (A og) (B tg) = gene_count p og tg \<and> (p \<in> C ht) = (p \<in> ht)"
    and new: "\<And>og tg ht. og \<subseteq> set xs \<Longrightarrow> tg \<subseteq> set xs \<Longrightarrow> ht \<subseteq> set xs
        \<Longrightarrow> gene_count x (A og) (B tg) = g \<and> (x \<in> C ht) = t"
  shows "triple_sum xs (\<lambda>og tg ht. \<Prod>p\<leftarrow>x # xs. w p (gene_count p (A og) (B tg)) (p \<in> C ht))
       = w x g t * triple_sum xs (\<lambda>og tg ht. \<Prod>p\<leftarrow>xs. (w p (gene_count p og tg) (p \<in> ht) :: real))"
proof -
  have "triple_sum xs (\<lambda>og tg ht. \<Prod>p\<leftarrow>x # xs. w p (gene_count p (A og) (B tg)) (p \<in> C ht))
      = triple_sum xs (\<lambda>og tg ht. w x g t * (\<Prod>p\<leftarrow>xs. w p (gene_count p og tg) (p \<in> ht)))"
  proof (rule triple_sum_cong)
    fix og tg ht
    assume d: "og \<subseteq> set xs" "tg \<subseteq> set xs" "ht \<subseteq> set xs"
    have m: "map (\<lambda>p. w p (gene_count p (A og) (B tg)) (p \<in> C ht)) xs
            = map (\<lambda>p. w p (gene_count p og tg) (p \<in> ht)) xs"
      by (rule map_cong [OF refl]) (simp add: rest [OF d])
    have n: "gene_count x (A og) (B tg) = g" "(x \<in> C ht) = t"
      using new [OF d] by simp_all
    show "(\<Prod>p\<leftarrow>x # xs. w p (gene_count p (A og) (B tg)) (p \<in> C ht))
        = w x g t * (\<Prod>p\<leftarrow>xs. w p (gene_count p og tg) (p \<in> ht))"
      by (simp only: list.map prod_list.Cons m n)
  qed
  then show ?thesis by (simp only: triple_sum_mult)
qed

lemma triple_sum_product:
  fixes w :: "string \<Rightarrow> int \<Rightarrow> bool \<Rightarrow> real"
  assumes "distinct xs"
  shows "triple_sum xs (\<lambda>og tg ht. \<Prod>p\<leftarrow>xs. w p (gene_count p og tg) (p \<in> ht))
       = (\<Prod>p\<leftarrow>xs. w p 1 True + w p 2 True + w p 0 True
                    + (w p 1 False + w p 2 False + w p 0 False))"
  using assms
proof (induction xs)
  case Nil
  then show ?case by (simp add: triple_sum_Nil)
next
  case (Cons x xs)
  then have x: "x \<notin> set xs" and dx: "distinct xs" by simp_all
  let ?P = "triple_sum xs (\<lambda>og tg ht. \<Prod>p\<leftarrow>xs. w p (gene_count p og tg) (p \<in> ht))"
  have s1: "triple_sum xs (\<lambda>og tg ht.
        \<Prod>p\<leftarrow>x # xs. w p (gene_count p (insert x og) tg) (p \<in> insert x ht)) = w x 1 True * ?P"
    by (rule triple_sum_shift [OF x]) (use x in \<open>auto simp: gene_count_def\<close>)
  have s2: "triple_sum xs (\<lambda>og tg ht.
        \<Prod>p\<leftarrow>x # xs. w p (gene_count p og (insert x tg)) (p \<in> insert x ht)) = w x 2 True * ?P"
    by (rule triple_sum_shift [OF x, where A = "\<lambda>og. og"])
       (use x in \<open>auto simp: gene_count_def\<close>)
  have s3: "triple_sum xs (\<lambda>og tg ht.
        \<Prod>p\<leftarrow>x # xs. w p (gene_count p og tg) (p \<in> insert x ht)) = w x 0 True * ?P"
    by (rule triple_sum_shift [OF x, where A = "\<lambda>og. og" and B = "\<lambda>tg. tg"])
       (use x in \<open>auto simp: gene_count_def\<close>)
  have s4: "triple_sum xs (\<lambda>og tg ht.
        \<Prod>p\<leftarrow>x # xs. w p (gene_count p (insert x og) tg) (p \<in> ht)) = w x 1 False * ?P"
    by (rule triple_sum_shift [OF x, where C = "\<lambda>ht. ht"])
       (use x in \<open>auto simp: gene_count_def\<close>)
  have s5: "triple_sum xs (\<lambda>og tg ht.
        \<Prod>p\<leftarrow>x # xs. w p (gene_count p og (insert x tg)) (p \<in> ht)) = w x 2 False * ?P"
    by (rule triple_sum_shift [OF x, where A = "\<lambda>og. og" and C = "\<lambda>ht. ht"])
       (use x in \<open>auto simp: gene_count_def\<close>)
  have s6: "triple_sum xs (\<lambda>og tg ht.
        \<Prod>p\<leftarrow>x # xs. w p (gene_count p og tg) (p \<in> ht)) = w x 0 False * ?P"
    by (rule triple_sum_shift [OF x, where A = "\<lambda>og. og" and B = "\<lambda>tg. tg" and C = "\<lambda>ht. ht"])
       (use x in \<open>auto simp: gene_count_def\<close>)
  have "triple_sum (x # xs) (\<lambda>og tg ht. \<Prod>p\<leftarrow>x # xs. w p (gene_count p og tg) (p \<in> ht))
      = w x 1 True * ?P + w x 2 True * ?P + w x 0 True * ?P
        + (w x 1 False * ?P + w x 2 False * ?P + w x 0 False * ?P)"
    by (simp only: triple_sum_Cons [OF x] s1 s2 s3 s4 s5 s6)
  also have "\<dots> = (w x 1 True + w x 2 True + w x 0 True
                    + (w x 1 False + w x 2 False + w x 0 False)) * ?P"
    by (simp only: distrib_right)
  finally show ?case by (simp only: Cons.IH [OF dx] list.map prod_list.Cons)
qed

section \<open>Founders without evidence\<close>

lemma sum_list_concat_map:
  fixes f :: "'b \<Rightarrow> real"
  shows "sum_list (map f (concat (map h xs))) = (\<Sum>x\<leftarrow>xs. sum_list (map f (h x)))"
  by (induction xs) simp_all

lemma founders_respect_evidence:
  "founders_only people \<Longrightarrow> respects_evidence people ht"
  by (auto simp: founders_only_def respects_evidence_def list_all_iff)

lemma founders_both_or_neither: "founders_only people \<Longrightarrow> both_or_neither people"
  by (auto simp: founders_only_def both_or_neither_def list_all_iff)

lemma sum_assignments:
  fixes F :: "string set \<Rightarrow> string set \<Rightarrow> string set \<Rightarrow> real"
  assumes "founders_only people"
  shows "sum_list (map (\<lambda>(og, tg, ht). F og tg ht) (assignments people))
           = triple_sum (map fst people) F"
proof -
  let ?names = "map fst people"
  have "sum_list (map (\<lambda>(og, tg, ht). F og tg ht) (assignments people))
      = (\<Sum>ht\<leftarrow>powerset ?names.
           sum_list (map (\<lambda>(og, tg, ht). F og tg ht)
             (map (\<lambda>(og, tg). (og, tg, ht)) (gene_assignments ?names))))"
    unfolding assignments_def
    by (simp only: sum_list_concat_map founders_respect_evidence [OF assms] if_True)
  also have "\<dots> = (\<Sum>ht\<leftarrow>powerset ?names.
           sum_list (map (\<lambda>(og, tg). F og tg ht) (gene_assignments ?names)))"
    by (simp add: o_def case_prod_unfold)
  also have "\<dots> = (\<Sum>ht\<leftarrow>powerset ?names. \<Sum>og\<leftarrow>powerset ?names.
           \<Sum>tg\<leftarrow>powerset (filter (\<lambda>n. n \<notin> og) ?names). F og tg ht)"
    unfolding gene_assignments_def
    by (simp add: sum_list_concat_map o_def)
  also have "\<dots> = triple_sum ?names F"
    unfolding triple_sum_def by (simp only: sum_list_powerset)
  finally show ?thesis .
qed

lemma founders_joint_value:
  assumes "founders_only people"
  shows "joint_value people og tg ht
           = (\<Prod>p\<leftarrow>map fst people. genePrior (gene_count p og tg)
                * traitLikelihood (gene_count p og tg) (p \<in> ht))"
proof -
  have "joint_probability people og tg ht = Inr (spec_joint_probability people og tg ht)"
    using joint_probability_loop_spec [OF founders_both_or_neither [OF assms], of og tg ht 1]
    by (simp add: joint_probability_def)
  then have "joint_value people og tg ht = spec_joint_probability people og tg ht"
    by (simp add: joint_value_def)
  also have "\<dots> = prod_list (map (\<lambda>(person, family).
       genePrior (gene_count person og tg)
         * traitLikelihood (gene_count person og tg) (person \<in> ht)) people)"
    unfolding spec_joint_probability_def
    by (rule arg_cong [where f = prod_list], rule map_cong [OF refl])
       (use assms in \<open>auto simp: founders_only_def list_all_iff spec_person_factor_def Let_def\<close>)
  also have "\<dots> = (\<Prod>p\<leftarrow>map fst people. genePrior (gene_count p og tg)
                * traitLikelihood (gene_count p og tg) (p \<in> ht))"
    by (simp add: o_def case_prod_unfold)
  finally show ?thesis .
qed

lemma prod_list_ones: "(\<Prod>p\<leftarrow>xs. (1::real)) = 1"
  by (induction xs) simp_all

lemma prod_list_single:
  fixes c :: real
  assumes "distinct xs" "q \<in> set xs"
  shows "(\<Prod>p\<leftarrow>xs. if p = q then c else 1) = c"
  using assms
proof (induction xs)
  case Nil
  then show ?case by simp
next
  case (Cons x xs)
  show ?case
  proof (cases "x = q")
    case True
    with Cons.prems have "q \<notin> set xs" by simp
    then have "map (\<lambda>p. if p = q then c else 1) xs = map (\<lambda>p. 1) xs"
      by (intro map_cong [OF refl]) auto
    then have "(\<Prod>p\<leftarrow>xs. if p = q then c else 1) = (\<Prod>p\<leftarrow>xs. 1)" by (rule arg_cong)
    then have "(\<Prod>p\<leftarrow>xs. if p = q then c else 1) = 1" by (simp only: prod_list_ones)
    then show ?thesis using True by simp
  next
    case False
    with Cons show ?thesis by simp
  qed
qed

lemma founders_marginal:
  assumes f: "founders_only people" and d: "distinct (map fst people)"
    and q: "q \<in> set (map fst people)"
  shows "sum_list (map (\<lambda>(og, tg, ht).
            if K (gene_count q og tg) (q \<in> ht) then joint_value people og tg ht else 0)
          (assignments people))
       = (if K 1 True then 0.03 * 0.56 else 0) + (if K 2 True then 0.01 * 0.65 else 0)
         + (if K 0 True then 0.96 * 0.01 else 0)
         + ((if K 1 False then 0.03 * 0.44 else 0) + (if K 2 False then 0.01 * 0.35 else 0)
            + (if K 0 False then 0.96 * 0.99 else 0))"
proof -
  let ?names = "map fst people"
  define a where "a = (\<lambda>g t. genePrior g * traitLikelihood g t)"
  define w where "w = (\<lambda>p g t. if p = q \<and> \<not> K g t then 0 else a g t)"
  define c where "c = w q 1 True + w q 2 True + w q 0 True
                       + (w q 1 False + w q 2 False + w q 0 False)"
  have total: "a 1 True + a 2 True + a 0 True + (a 1 False + a 2 False + a 0 False) = 1"
    by (simp add: a_def genePrior_simps traitLikelihood_simps)
  have "sum_list (map (\<lambda>(og, tg, ht).
            if K (gene_count q og tg) (q \<in> ht) then joint_value people og tg ht else 0)
          (assignments people))
      = triple_sum ?names (\<lambda>og tg ht.
            if K (gene_count q og tg) (q \<in> ht) then joint_value people og tg ht else 0)"
    using f by (rule sum_assignments)
  also have "\<dots> = triple_sum ?names (\<lambda>og tg ht.
            \<Prod>p\<leftarrow>?names. w p (gene_count p og tg) (p \<in> ht))"
  proof (rule triple_sum_cong)
    fix og tg ht
    show "(if K (gene_count q og tg) (q \<in> ht) then joint_value people og tg ht else 0)
            = (\<Prod>p\<leftarrow>?names. w p (gene_count p og tg) (p \<in> ht))"
    proof (cases "K (gene_count q og tg) (q \<in> ht)")
      case True
      have "map (\<lambda>p. w p (gene_count p og tg) (p \<in> ht)) ?names
              = map (\<lambda>p. a (gene_count p og tg) (p \<in> ht)) ?names"
        by (rule map_cong [OF refl]) (use True in \<open>auto simp: w_def\<close>)
      then have "(\<Prod>p\<leftarrow>?names. w p (gene_count p og tg) (p \<in> ht))
              = (\<Prod>p\<leftarrow>?names. a (gene_count p og tg) (p \<in> ht))"
        by (rule arg_cong)
      with True show ?thesis by (simp only: founders_joint_value [OF f] a_def if_True)
    next
      case False
      then have "w q (gene_count q og tg) (q \<in> ht) = 0" by (simp add: w_def)
      with q have "0 \<in> set (map (\<lambda>p. w p (gene_count p og tg) (p \<in> ht)) ?names)"
        by (metis (no_types, lifting) image_eqI set_map)
      then have "(\<Prod>p\<leftarrow>?names. w p (gene_count p og tg) (p \<in> ht)) = 0"
        by (simp only: prod_list_zero_iff)
      with False show ?thesis by simp
    qed
  qed
  also have "\<dots> = (\<Prod>p\<leftarrow>?names. w p 1 True + w p 2 True + w p 0 True
                    + (w p 1 False + w p 2 False + w p 0 False))"
    using d by (rule triple_sum_product)
  also have "\<dots> = (\<Prod>p\<leftarrow>?names. if p = q then c else 1)"
    by (rule arg_cong [where f = prod_list], rule map_cong [OF refl])
       (auto simp: w_def c_def total)
  also have "\<dots> = c" using d q by (rule prod_list_single)
  also have "c = (if K 1 True then 0.03 * 0.56 else 0) + (if K 2 True then 0.01 * 0.65 else 0)
         + (if K 0 True then 0.96 * 0.01 else 0)
         + ((if K 1 False then 0.03 * 0.44 else 0) + (if K 2 False then 0.01 * 0.35 else 0)
            + (if K 0 False then 0.96 * 0.99 else 0))"
    by (simp add: c_def w_def a_def genePrior_simps traitLikelihood_simps)
  finally show ?thesis .
qed

lemma founders_accumulated:
  assumes f: "founders_only people" and d: "distinct (map fst people)"
    and q: "q \<in> set (map fst people)"
  shows "accumulated_features people (assignments people) q = prior_features"
proof -
  have g: "gene_mass people (assignments people) q g
       = (if g = 1 then 0.03 * 0.56 else 0) + (if g = 2 then 0.01 * 0.65 else 0)
         + (if g = 0 then 0.96 * 0.01 else 0)
         + ((if g = 1 then 0.03 * 0.44 else 0) + (if g = 2 then 0.01 * 0.35 else 0)
            + (if g = 0 then 0.96 * 0.99 else 0))" for g
    unfolding gene_mass_def
    using founders_marginal [OF f d q, where K = "\<lambda>g' t. g' = g"] by simp
  have t: "trait_mass people (assignments people) q t
       = (if t then 0.03 * 0.56 else 0) + (if t then 0.01 * 0.65 else 0)
         + (if t then 0.96 * 0.01 else 0)
         + ((if \<not> t then 0.03 * 0.44 else 0) + (if \<not> t then 0.01 * 0.35 else 0)
            + (if \<not> t then 0.96 * 0.99 else 0))" for t
    unfolding trait_mass_def
    using founders_marginal [OF f d q, where K = "\<lambda>g' t'. t' = t"] by simp
  show ?thesis
    by (simp add: accumulated_features_def prior_features_def g t)
qed

lemma normalize_prior_features:
  "normalize_probabilities (map (\<lambda>(person, family). (person, prior_features)) people)
     = Inr (map (\<lambda>(person, family). (person, prior_features)) people)"
  by (induction people)
     (auto simp: normalize_distribution_def prior_features_def)

text \<open>
  Claim C9. For a dataset of founders only (no parent links) without trait evidence,
  however many they are, \<open>main\<close> returns for every founder the gene distribution of
  the prior: 0.01 for two copies, 0.03 for one, 0.96 for none.
\<close>

theorem founders_posterior_is_prior:
  assumes "distinct (map fst people)" and "founders_only people"
  shows "main_people people
           = Inr (map (\<lambda>(person, family). (person, prior_features)) people)
         \<and> gene_dist prior_features = [(2, 0.01), (1, 0.03), (0, 0.96)]"
proof -
  have m: "map (\<lambda>(person, family).
            (person, accumulated_features people (assignments people) person)) people
          = map (\<lambda>(person, family). (person, prior_features)) people"
  proof (rule map_cong [OF refl])
    fix e assume e: "e \<in> set people"
    then have "fst e \<in> set (map fst people)" by simp
    from founders_accumulated [OF assms(2) assms(1) this]
    show "(case e of (person, family) \<Rightarrow>
              (person, accumulated_features people (assignments people) person))
            = (case e of (person, family) \<Rightarrow> (person, prior_features))"
      by (simp add: case_prod_unfold)
  qed
  have "main_people people
          = normalize_probabilities (map (\<lambda>(person, family).
              (person, accumulated_features people (assignments people) person)) people)"
    by (simp add: main_people_def main_loop_run [OF assms(1)] run_after_def)
  then have "main_people people
           = Inr (map (\<lambda>(person, family). (person, prior_features)) people)"
    by (simp only: m normalize_prior_features)
  then show ?thesis by (simp add: prior_features_def)
qed

theorem founders_posterior_is_prior_witness:
  "main_people two_founders
     = Inr [(''James'', \<lparr>gene_dist = [(2, 0.01), (1, 0.03), (0, 0.96)],
                          trait_dist = [(True, 0.0329), (False, 0.9671)]\<rparr>),
            (''Lily'', \<lparr>gene_dist = [(2, 0.01), (1, 0.03), (0, 0.96)],
                         trait_dist = [(True, 0.0329), (False, 0.9671)]\<rparr>)]"
proof -
  have "distinct (map fst two_founders)" and "founders_only two_founders"
    by (simp_all add: two_founders_def founders_only_def)
  from founders_posterior_is_prior [OF this] show ?thesis
    by (simp add: two_founders_def prior_features_def)
qed

end
